theory Spec2Isabelle
  imports Main "HOL-Library.Sublist"
begin

section \<open>JavaScript strings, parseInt and Array.prototype.sort\<close>

text \<open>
  A JavaScript string is a \<open>string\<close> (a list of characters of code below 256); the
  classes of letters and digits are those of the ASCII range, which is what the regular
  expressions and the case-insensitive prefixes of the source distinguish. Of the
  characters of code 128 and above only the no-break space (code 160) is white space, and
  none is a letter or a digit.
\<close>

definition digitChars :: string where
  "digitChars = ''0123456789''"

definition upperLetters :: string where
  "upperLetters = ''ABCDEFGHIJKLMNOPQRSTUVWXYZ''"

definition lowerLetters :: string where
  "lowerLetters = ''abcdefghijklmnopqrstuvwxyz''"

definition isDigit :: "char \<Rightarrow> bool" where
  "isDigit c = (c \<in> set digitChars)"

definition isUpper :: "char \<Rightarrow> bool" where
  "isUpper c = (c \<in> set upperLetters)"

definition isLower :: "char \<Rightarrow> bool" where
  "isLower c = (c \<in> set lowerLetters)"

text \<open>White space: tab, line feed, vertical tab, form feed, carriage return, space and
  no-break space.\<close>

definition isSpace :: "char \<Rightarrow> bool" where
  "isSpace c =
     (c \<in> set [CHR 0x09, CHR 0x0A, CHR 0x0B, CHR 0x0C, CHR 0x0D, CHR 0x20, CHR 0xA0])"

text \<open>Word characters: letters, digits and the underscore.\<close>

definition isWordChar :: "char \<Rightarrow> bool" where
  "isWordChar c = (isDigit c \<or> isUpper c \<or> isLower c \<or> c = CHR ''_'')"

text \<open>The character at the place of \<open>c\<close> in the second alphabet, when \<open>c\<close> is in the
  first one.\<close>

fun translateChar :: "string \<Rightarrow> string \<Rightarrow> char \<Rightarrow> char" where
  "translateChar (x # xs) (y # ys) c = (if c = x then y else translateChar xs ys c)"
| "translateChar _ _ c = c"

definition toLowerChar :: "char \<Rightarrow> char" where
  "toLowerChar c = translateChar upperLetters lowerLetters c"

definition toUpperChar :: "char \<Rightarrow> char" where
  "toUpperChar c = translateChar lowerLetters upperLetters c"

definition toLowerCase :: "string \<Rightarrow> string" where
  "toLowerCase s = map toLowerChar s"

definition toUpperCase :: "string \<Rightarrow> string" where
  "toUpperCase s = map toUpperChar s"

definition trim :: "string \<Rightarrow> string" where
  "trim s = rev (dropWhile isSpace (rev (dropWhile isSpace s)))"

definition startsWith :: "string \<Rightarrow> string \<Rightarrow> bool" where
  "startsWith s p = (take (length p) s = p)"

text \<open>\<open>s.split\<close> at runs of white space: every maximal run of white space separates two pieces; a run at
  the start or at the end of the string leaves an empty piece there, and the empty string
  splits into one empty piece.\<close>

function splitWhitespace :: "string \<Rightarrow> string list" where
  "splitWhitespace [] = [[]]"
| "splitWhitespace (c # cs) =
     (if isSpace c then [] # splitWhitespace (dropWhile isSpace cs)
      else (case splitWhitespace cs of
              [] \<Rightarrow> [[c]]
            | w # ws \<Rightarrow> (c # w) # ws))"
  by pat_completeness auto
termination
  by (relation "measure length") (auto simp: length_dropWhile_le le_imp_less_Suc)

text \<open>\<open>s.split('/').length\<close>: one more than the number of slashes; 1 for the empty
  string.\<close>

definition splitSlashLength :: "string \<Rightarrow> nat" where
  "splitSlashLength s = length (filter (\<lambda>c. c = CHR ''/'') s) + 1"

text \<open>\<open>parts.join(' / ')\<close>.\<close>

fun joinPath :: "string list \<Rightarrow> string" where
  "joinPath [] = []"
| "joinPath [p] = p"
| "joinPath (p # q # ps) = p @ '' / '' @ joinPath (q # ps)"

text \<open>
  \<open>parseInt(s)\<close> with no radix: leading white space is skipped, one sign is read, a
  \<open>0x\<close> prefix selects radix 16, and the longest prefix of digits is the value; no digit
  gives \<open>NaN\<close>, here \<open>None\<close>. The value is an \<open>int\<close>: the timestamps compared in
  the source are far below \<open>2^53\<close>, where a double is exact.
\<close>

definition radixDigits :: string where
  "radixDigits = ''0123456789abcdefghijklmnopqrstuvwxyz''"

definition digitValue :: "char \<Rightarrow> int" where
  "digitValue c = int (length (takeWhile (\<lambda>x. x \<noteq> toLowerChar c) radixDigits))"

definition isRadixDigit :: "int \<Rightarrow> char \<Rightarrow> bool" where
  "isRadixDigit r c = (digitValue c < r)"

definition digitsValue :: "int \<Rightarrow> string \<Rightarrow> int" where
  "digitsValue r ds = foldl (\<lambda>acc c. acc * r + digitValue c) 0 ds"

definition parseInt :: "string \<Rightarrow> int option" where
  "parseInt s =
     (let s1 = dropWhile isSpace s;
          neg = startsWith s1 ''-'';
          s2 = (if startsWith s1 ''-'' \<or> startsWith s1 ''+'' then tl s1 else s1);
          hex = (startsWith s2 ''0x'' \<or> startsWith s2 ''0X'');
          r = (if hex then 16 else 10);
          s3 = (if hex then drop 2 s2 else s2);
          z = takeWhile (isRadixDigit r) s3
      in if z = [] then None
         else Some ((if neg then - 1 else 1) * digitsValue r z))"

text \<open>\<open>String(n)\<close> for an integer \<open>n\<close>.\<close>

function decimalDigits :: "int \<Rightarrow> string" where
  "decimalDigits n =
     (if n < 10 then [digitChars ! nat n]
      else decimalDigits (n div 10) @ [digitChars ! nat (n mod 10)])"
  by pat_completeness auto
termination
  by (relation "measure nat") auto

definition intToString :: "int \<Rightarrow> string" where
  "intToString i = (if i < 0 then CHR ''-'' # decimalDigits (- i) else decimalDigits i)"

text \<open>
  \<open>xs.sort(cmp)\<close> is a stable sort: \<open>a\<close> goes before \<open>b\<close> when \<open>cmp a b < 0\<close>, and
  elements that compare equal keep their order. Here it is the stable insertion sort; a
  comparator result of \<open>NaN\<close> counts as 0, as the language defines. Where the
  comparator is not a consistent order (a \<open>NaN\<close> among numbers) the language leaves the
  result to the engine, and the order given here is one of those allowed.
\<close>

fun insertSorted :: "('a \<Rightarrow> 'a \<Rightarrow> int) \<Rightarrow> 'a \<Rightarrow> 'a list \<Rightarrow> 'a list" where
  "insertSorted cmp x [] = [x]"
| "insertSorted cmp x (y # ys) =
     (if cmp x y \<le> 0 then x # y # ys else y # insertSorted cmp x ys)"

definition jsSort :: "('a \<Rightarrow> 'a \<Rightarrow> int) \<Rightarrow> 'a list \<Rightarrow> 'a list" where
  "jsSort cmp xs = foldr (insertSorted cmp) xs []"

definition nanAsZero :: "int option \<Rightarrow> int" where
  "nanAsZero v = (case v of None \<Rightarrow> 0 | Some i \<Rightarrow> i)"

text \<open>\<open>a - b\<close> on numbers that may be \<open>NaN\<close>.\<close>

definition numSub :: "int option \<Rightarrow> int option \<Rightarrow> int option" where
  "numSub a b = (case (a, b) of (Some x, Some y) \<Rightarrow> Some (x - y) | _ \<Rightarrow> None)"

section \<open>Tree model (types.ts)\<close>

text \<open>
  A \<open>Bookmark\<close> and a \<open>BookmarkFolder\<close> as records of their fields; the optional
  fields of the TypeScript interfaces are options. The union \<open>BookmarkNode\<close> is a datatype;
  the \<open>children\<close> array of a folder is the list argument of \<open>Folder\<close>.
\<close>

record bookmark =
  b_id :: string
  b_title :: string
  b_url :: string
  b_addDate :: "string option"
  b_icon :: "string option"
  b_searchText :: "string option"

record folder_info =
  f_id :: string
  f_title :: string
  f_addDate :: "string option"
  f_isAICategory :: "bool option"
  f_childStats :: "(nat \<times> nat) option"

datatype node = Bookmark bookmark | Folder folder_info "node list"

section \<open>Tree algorithms (utils/bookmarkUtils.ts)\<close>

text \<open>\<open>flattenBookmarks\<close>: the loop over \<open>nodes\<close> is the recursion on the list, the
  recursive call on \<open>node.children\<close> the recursion on the folder's children.\<close>

fun flattenBookmarks :: "node list \<Rightarrow> bookmark list" where
  "flattenBookmarks [] = []"
| "flattenBookmarks (Bookmark b # ns) = b # flattenBookmarks ns"
| "flattenBookmarks (Folder f cs # ns) = flattenBookmarks cs @ flattenBookmarks ns"

text \<open>\<open>removeBookmarksByIds\<close>: a reduce that skips a bookmark whose id is in the set,
  rebuilds a folder with its filtered children and pushes every other node as it is.\<close>

fun removeBookmarksByIds :: "node list \<Rightarrow> string set \<Rightarrow> node list" where
  "removeBookmarksByIds [] S = []"
| "removeBookmarksByIds (Bookmark b # ns) S =
     (if b_id b \<in> S then removeBookmarksByIds ns S
      else Bookmark b # removeBookmarksByIds ns S)"
| "removeBookmarksByIds (Folder f cs # ns) S =
     Folder f (removeBookmarksByIds cs S) # removeBookmarksByIds ns S"

text \<open>\<open>removeEmptyFolders\<close>: children are cleaned first; the folder is kept only when
  the cleaned children are not empty; a bookmark is always kept.\<close>

fun removeEmptyFolders :: "node list \<Rightarrow> node list" where
  "removeEmptyFolders [] = []"
| "removeEmptyFolders (Folder f cs # ns) =
     (let cleanedChildren = removeEmptyFolders cs in
      if length cleanedChildren > 0
      then Folder f cleanedChildren # removeEmptyFolders ns
      else removeEmptyFolders ns)"
| "removeEmptyFolders (Bookmark b # ns) = Bookmark b # removeEmptyFolders ns"

text \<open>\<open>findPathRecursive\<close> and \<open>findBookmarkPath\<close>: the titles of the folders above the
  first node with the id, joined; a found path is an array and so always truthy, also when
  it is empty.\<close>

fun findPathRecursive :: "node list \<Rightarrow> string \<Rightarrow> string list \<Rightarrow> string list option" where
  "findPathRecursive [] i currentPath = None"
| "findPathRecursive (Bookmark b # ns) i currentPath =
     (if b_id b = i then Some currentPath else findPathRecursive ns i currentPath)"
| "findPathRecursive (Folder f cs # ns) i currentPath =
     (if f_id f = i then Some currentPath
      else (case findPathRecursive cs i (currentPath @ [f_title f]) of
              Some foundPath \<Rightarrow> Some foundPath
            | None \<Rightarrow> findPathRecursive ns i currentPath))"

definition findBookmarkPath :: "node list \<Rightarrow> string \<Rightarrow> string" where
  "findBookmarkPath nodes i =
     (case findPathRecursive nodes i [] of
        Some p \<Rightarrow> joinPath p
      | None \<Rightarrow> ''Unknown Location'')"

text \<open>The folders of a tree with every bookmark taken out: what is left of a tree when
  only its folders are looked at.\<close>

fun foldersOnly :: "node list \<Rightarrow> node list" where
  "foldersOnly [] = []"
| "foldersOnly (Bookmark b # ns) = foldersOnly ns"
| "foldersOnly (Folder f cs # ns) = Folder f (foldersOnly cs) # foldersOnly ns"

section \<open>Duplicate groups\<close>

text \<open>\<open>findDuplicates\<close>: the \<open>Map\<close> from url to the bookmarks with it keeps its keys in
  the order of their first insertion; only a non-empty url is entered, and only an url with
  more than one bookmark is returned. The assignment \<open>duplicates[url] = ...\<close> for the url
  \<open>__proto__\<close> sets the prototype of the record and adds no key to it, so that group is
  not returned.\<close>

fun pushByUrl :: "bookmark \<Rightarrow> (string \<times> bookmark list) list \<Rightarrow> (string \<times> bookmark list) list" where
  "pushByUrl b [] = [(b_url b, [b])]"
| "pushByUrl b ((u, bs) # m) =
     (if u = b_url b then (u, bs @ [b]) # m else (u, bs) # pushByUrl b m)"

definition findDuplicates :: "bookmark list \<Rightarrow> (string \<times> bookmark list) list" where
  "findDuplicates bookmarks =
     filter (\<lambda>(u, bs). length bs > 1 \<and> u \<noteq> ''__proto__'')
       (foldl (\<lambda>m b. if b_url b \<noteq> [] then pushByUrl b m else m) [] bookmarks)"

text \<open>\<open>Object.entries\<close> of the returned record: keys that are array indices come first, in
  ascending order, the other keys follow in insertion order.\<close>

definition isArrayIndex :: "string \<Rightarrow> bool" where
  "isArrayIndex k =
     (k = ''0'' \<or> (k \<noteq> [] \<and> list_all isDigit k \<and> hd k \<noteq> CHR ''0''
        \<and> digitsValue 10 k < 4294967295))"

definition objectEntries :: "(string \<times> 'a) list \<Rightarrow> (string \<times> 'a) list" where
  "objectEntries kvs =
     sort_key (\<lambda>kv. digitsValue 10 (fst kv)) (filter (\<lambda>kv. isArrayIndex (fst kv)) kvs)
     @ filter (\<lambda>kv. \<not> isArrayIndex (fst kv)) kvs"

record dupItem =
  item_bookmark :: bookmark
  item_path :: string

record duplicateSet =
  ds_url :: string
  ds_items :: "dupItem list"

text \<open>\<open>parseInt(bm.addDate || '0')\<close>: a missing or empty \<open>addDate\<close> reads as 0.\<close>

definition addDateNumber :: "bookmark \<Rightarrow> int option" where
  "addDateNumber bm =
     parseInt (case b_addDate bm of
                 None \<Rightarrow> ''0''
               | Some d \<Rightarrow> (if d = [] then ''0'' else d))"

text \<open>The comparator \<open>parseInt(a.addDate || '0') - parseInt(b.addDate || '0')\<close>.\<close>

definition compareAddDate :: "bookmark \<Rightarrow> bookmark \<Rightarrow> int" where
  "compareAddDate a b = nanAsZero (numSub (addDateNumber a) (addDateNumber b))"

text \<open>The payload of \<open>SET_DUPLICATES\<close> in \<open>findAndSetDuplicates\<close>: every group with the
  path of each of its bookmarks, sorted by ascending \<open>addDate\<close>.\<close>

definition findAndSetDuplicates :: "node list \<Rightarrow> duplicateSet list" where
  "findAndSetDuplicates bookmarks =
     map (\<lambda>(url, bms).
            \<lparr>ds_url = url,
             ds_items =
               jsSort (\<lambda>a b. compareAddDate (item_bookmark a) (item_bookmark b))
                 (map (\<lambda>bm. \<lparr>item_bookmark = bm,
                              item_path = findBookmarkPath bookmarks (b_id bm)\<rparr>) bms)\<rparr>)
         (objectEntries (findDuplicates (flattenBookmarks bookmarks)))"

section \<open>Duplicate resolver (components/DuplicateManagerView.tsx)\<close>

text \<open>The comparator of the recommendation: fewer pieces of the path split at a slash
  first, then the newer \<open>addDate\<close>.\<close>

definition compareBest :: "dupItem \<Rightarrow> dupItem \<Rightarrow> int" where
  "compareBest a b =
     (let pathA = int (splitSlashLength (item_path a));
          pathB = int (splitSlashLength (item_path b))
      in if pathA \<noteq> pathB then pathA - pathB
         else nanAsZero (numSub (addDateNumber (item_bookmark b))
                                (addDateNumber (item_bookmark a))))"

text \<open>
  The recommendation step of \<open>performSmartScan\<close> for one group, on the selection so far.
  \<open>alive url\<close> is the outcome of the probe of the url (\<open>fetch\<close> resolved); a dead url
  selects every item, otherwise the first item of the sorted group is taken out of the
  selection and the others are added. \<open>sorted[0].bookmark\<close> of an empty group throws, which
  is \<open>None\<close>.
\<close>

definition scanGroup :: "(string \<Rightarrow> bool) \<Rightarrow> string set option \<Rightarrow> duplicateSet \<Rightarrow> string set option" where
  "scanGroup alive sel g =
     (case sel of
        None \<Rightarrow> None
      | Some newSelections \<Rightarrow>
          if \<not> alive (ds_url g)
          then Some (newSelections \<union> set (map (\<lambda>it. b_id (item_bookmark it)) (ds_items g)))
          else (case jsSort compareBest (ds_items g) of
                  [] \<Rightarrow> None
                | best # others \<Rightarrow>
                    Some ((newSelections - {b_id (item_bookmark best)})
                          \<union> set (map (\<lambda>it. b_id (item_bookmark it)) others))))"

definition performSmartScan :: "duplicateSet list \<Rightarrow> (string \<Rightarrow> bool) \<Rightarrow> string set \<Rightarrow> string set option" where
  "performSmartScan duplicates alive selectedIds =
     foldl (scanGroup alive) (Some selectedIds) duplicates"

section \<open>Analytics (utils/bookmarkUtils.ts)\<close>

definition STOP_WORDS :: "string set" where
  "STOP_WORDS = set [
     ''a'', ''an'', ''the'', ''and'', ''or'', ''but'', ''is'', ''are'', ''was'', ''were'',
     ''in'', ''on'', ''at'', ''to'', ''for'', ''of'', ''with'', ''by'', ''from'', ''up'',
     ''about'', ''into'', ''over'', ''after'',
     ''how'', ''new'', ''top'', ''best'', ''guide'', ''tutorial'', ''pdf'', ''video'',
     ''watch'', ''login'', ''sign'', ''home'', ''page'', ''site'', ''website'', ''com'',
     ''org'', ''net'', ''www'', ''https'', ''http'',
     ''free'', ''download'', ''online'', ''your'', ''my'', ''me'', ''it'', ''that'', ''this'',
     ''get'', ''use'', ''what'', ''why'', ''when'', ''official'', ''profile'', ''google'',
     ''search'', ''docs'', ''bookmarks'',
     ''recipes'', ''recipe'']"

text \<open>The tokens of a title: lower case, every character that is neither a word character
  nor white space removed, split at white space.\<close>

definition titleWords :: "string \<Rightarrow> string list" where
  "titleWords title =
     splitWhitespace (filter (\<lambda>c. isWordChar c \<or> isSpace c) (toLowerCase title))"

text \<open>The test for a purely numeric word: one digit or more and nothing else.\<close>

definition isNumeric :: "string \<Rightarrow> bool" where
  "isNumeric w = (w \<noteq> [] \<and> list_all isDigit w)"

definition isKeyword :: "string \<Rightarrow> bool" where
  "isKeyword word = (length word > 2 \<and> word \<notin> STOP_WORDS \<and> \<not> isNumeric word)"

text \<open>\<open>keywordCounts.set(word, (keywordCounts.get(word) || 0) + 1)\<close> on a \<open>Map\<close>, whose
  entries stay in the order in which their keys were first set.\<close>

fun bumpCount :: "string \<Rightarrow> (string \<times> nat) list \<Rightarrow> (string \<times> nat) list" where
  "bumpCount w [] = [(w, 1)]"
| "bumpCount w ((k, c) # kcs) =
     (if k = w then (k, c + 1) # kcs else (k, c) # bumpCount w kcs)"

definition countWords :: "(string \<times> nat) list \<Rightarrow> string list \<Rightarrow> (string \<times> nat) list" where
  "countWords m ws = foldl (\<lambda>m word. if isKeyword word then bumpCount word m else m) m ws"

definition keywordCounts :: "bookmark list \<Rightarrow> (string \<times> nat) list" where
  "keywordCounts bookmarks = foldl (\<lambda>m bm. countWords m (titleWords (b_title bm))) [] bookmarks"

definition analyzeTitleKeywords :: "bookmark list \<Rightarrow> (string \<times> nat) list" where
  "analyzeTitleKeywords bookmarks =
     take 30 (jsSort (\<lambda>a b. int (snd b) - int (snd a)) (keywordCounts bookmarks))"

text \<open>The stream of the tokens that are counted, in the order in which the two nested
  loops meet them, and the position at which a token is met first.\<close>

definition keywordStream :: "bookmark list \<Rightarrow> string list" where
  "keywordStream bookmarks = concat (map (\<lambda>bm. filter isKeyword (titleWords (b_title bm))) bookmarks)"

definition firstSeen :: "string list \<Rightarrow> string \<Rightarrow> nat" where
  "firstSeen ws w = length (takeWhile (\<lambda>x. x \<noteq> w) ws)"

text \<open>
  \<open>analyzeBookmarkAges\<close>. \<open>now\<close> is \<open>new Date().getTime()\<close>, in milliseconds. A bookmark
  with a missing or empty \<open>addDate\<close> is skipped, and so is one whose date is invalid:
  \<open>parseInt\<close> gives \<open>NaN\<close>, or the time value is beyond the 8.64e15 milliseconds a
  \<open>Date\<close> can hold.
\<close>

definition addDateTime :: "bookmark \<Rightarrow> int option" where
  "addDateTime bm =
     (case b_addDate bm of
        None \<Rightarrow> None
      | Some d \<Rightarrow>
          if d = [] then None
          else (case parseInt d of
                  None \<Rightarrow> None
                | Some v \<Rightarrow> if \<bar>v * 1000\<bar> > 8640000000000000 then None else Some (v * 1000)))"

definition oneMonth :: int where "oneMonth = 30 * 24 * 60 * 60 * 1000"
definition sixMonths :: int where "sixMonths = 6 * oneMonth"
definition oneYear :: int where "oneYear = 12 * oneMonth"
definition twoYears :: int where "twoYears = 2 * oneYear"
definition fiveYears :: int where "fiveYears = 5 * oneYear"

definition ageLabel :: "int \<Rightarrow> string" where
  "ageLabel age =
     (if age > fiveYears then ''Over 5 years old''
      else if age > twoYears then ''2-5 years old''
      else if age > oneYear then ''1-2 years old''
      else if age > sixMonths then ''6-12 months old''
      else if age > oneMonth then ''1-6 months old''
      else ''Less than 1 month old'')"

definition emptyAgeGroups :: "(string \<times> string list) list" where
  "emptyAgeGroups =
     [(''Over 5 years old'', []), (''2-5 years old'', []), (''1-2 years old'', []),
      (''6-12 months old'', []), (''1-6 months old'', []), (''Less than 1 month old'', [])]"

text \<open>\<open>ageGroups[label].push(bmInfo)\<close>.\<close>

definition pushToGroup :: "string \<Rightarrow> string \<Rightarrow> (string \<times> string list) list \<Rightarrow> (string \<times> string list) list" where
  "pushToGroup label i groups = map (\<lambda>(l, ids). if l = label then (l, ids @ [i]) else (l, ids)) groups"

definition analyzeBookmarkAges :: "int \<Rightarrow> bookmark list \<Rightarrow> (string \<times> string list) list" where
  "analyzeBookmarkAges now bookmarks =
     filter (\<lambda>group. length (snd group) > 0)
       (foldl (\<lambda>ageGroups bookmark.
                 case addDateTime bookmark of
                   None \<Rightarrow> ageGroups
                 | Some t \<Rightarrow> pushToGroup (ageLabel (now - t)) (b_id bookmark) ageGroups)
          emptyAgeGroups bookmarks)"

section \<open>Import parser (the worker code of AppContext.tsx)\<close>

text \<open>
  What the parser takes from outside: the random and time part of the id generated for the
  node of line \<open>i\<close>, the value of \<open>Date.now()\<close> (milliseconds) when line \<open>i\<close> is
  read, and \<open>sanitizeTitle\<close>, whose HTML entity decoding builds characters from their
  codes and bears on none of the fields looked at here.
\<close>

record env =
  genId :: "nat \<Rightarrow> string"
  clock :: "nat \<Rightarrow> int"
  sanitizeTitle :: "string \<Rightarrow> string"

text \<open>The split of the input into lines: a line ends at a line feed, and a carriage return right
  before it goes with it.\<close>

fun splitLines :: "string \<Rightarrow> string list" where
  "splitLines [] = [[]]"
| "splitLines (c # cs) =
     (if c = CHR 0x0A then [] # splitLines cs
      else if c = CHR 0x0D \<and> startsWith cs [CHR 0x0A] then [] # splitLines (tl cs)
      else (case splitLines cs of
              [] \<Rightarrow> [[c]]
            | l # ls \<Rightarrow> (c # l) # ls))"

text \<open>
  \<open>line.match(/NAME="([^"]*)"/i)\<close>: the first position where the attribute name, in any
  letter case, is followed by an equals sign, a quote, and later a closing quote; the group
  is what stands between the two quotes.
\<close>

fun attrMatch :: "string \<Rightarrow> string \<Rightarrow> string option" where
  "attrMatch name [] = None"
| "attrMatch name (c # cs) =
     (let k = length name + 2 in
      if toUpperCase (take k (c # cs)) = name @ [CHR ''='', CHR 0x22]
         \<and> CHR 0x22 \<in> set (drop k (c # cs))
      then Some (takeWhile (\<lambda>x. x \<noteq> CHR 0x22) (drop k (c # cs)))
      else attrMatch name cs)"

text \<open>
  \<open>line.match(/>(.+?)<\/A>/i)\<close>, with the closing tag as a parameter: after the first
  \<open>>\<close> that allows it, the shortest non-empty text without a line terminator that the
  closing tag follows.
\<close>

fun lazyBody :: "string \<Rightarrow> string \<Rightarrow> string option" where
  "lazyBody closing [] = None"
| "lazyBody closing (c # cs) =
     (if c = CHR 0x0A \<or> c = CHR 0x0D then None
      else if startsWith (toUpperCase cs) closing then Some [c]
      else (case lazyBody closing cs of None \<Rightarrow> None | Some body \<Rightarrow> Some (c # body)))"

fun titleMatch :: "string \<Rightarrow> string \<Rightarrow> string option" where
  "titleMatch closing [] = None"
| "titleMatch closing (c # cs) =
     (if c = CHR ''>''
      then (case lazyBody closing cs of
              Some body \<Rightarrow> Some body
            | None \<Rightarrow> titleMatch closing cs)
      else titleMatch closing cs)"

text \<open>
  The stack of open folders. The source keeps on its stack references to folder objects
  that are at the same time the last child of the folder below them; here a frame is an
  open folder with the children it has so far, and the folder below holds its other
  children. Closing a frame appends the folder to the frame below.
\<close>

type_synonym frame = "folder_info \<times> node list"

record treeStats =
  bookmarkCount :: int
  folderCount :: int

definition rootFrame :: frame where
  "rootFrame =
     (\<lparr>f_id = ''root-folder'', f_title = ''Root'', f_addDate = None,
       f_isAICategory = None, f_childStats = None\<rparr>, [])"

text \<open>\<open>parent.children.push(node)\<close> for the folder on top of the stack.\<close>

definition pushChild :: "node \<Rightarrow> frame list \<Rightarrow> frame list" where
  "pushChild n stack = (case stack of [] \<Rightarrow> [] | (f, cs) # rest \<Rightarrow> (f, cs @ [n]) # rest)"

text \<open>A \<open><DL>\<close> line: the last child of the folder on top, when it is a folder, is pushed
  on the stack.\<close>

definition openList :: "frame list \<Rightarrow> frame list" where
  "openList stack =
     (case stack of
        [] \<Rightarrow> []
      | (f, cs) # rest \<Rightarrow>
          if cs = [] then stack
          else (case last cs of
                  Folder g gcs \<Rightarrow> (g, gcs) # (f, butlast cs) # rest
                | Bookmark b \<Rightarrow> stack))"

text \<open>A \<open></DL>\<close> line: \<open>if (stack.length > 1) stack.pop()\<close>.\<close>

definition closeList :: "frame list \<Rightarrow> frame list" where
  "closeList stack =
     (case stack of
        (g, gcs) # (f, cs) # rest \<Rightarrow> (f, cs @ [Folder g gcs]) # rest
      | _ \<Rightarrow> stack)"

text \<open>\<open>addDateMatch ? addDateMatch[1] : String(Math.floor(Date.now() / 1000))\<close>.\<close>

definition addDateOf :: "env \<Rightarrow> nat \<Rightarrow> string \<Rightarrow> string" where
  "addDateOf e i trimmedLine =
     (case attrMatch ''ADD_DATE'' trimmedLine of
        Some d \<Rightarrow> d
      | None \<Rightarrow> intToString (clock e i div 1000))"

definition newFolder :: "env \<Rightarrow> nat \<Rightarrow> string \<Rightarrow> node" where
  "newFolder e i trimmedLine =
     Folder \<lparr>f_id = ''folder-'' @ genId e i,
             f_title = sanitizeTitle e (case titleMatch ''</H3>'' trimmedLine of
                                          Some t \<Rightarrow> t | None \<Rightarrow> ''Untitled Folder''),
             f_addDate = Some (addDateOf e i trimmedLine),
             f_isAICategory = None, f_childStats = None\<rparr> []"

definition newBookmark :: "env \<Rightarrow> nat \<Rightarrow> string \<Rightarrow> string \<Rightarrow> node" where
  "newBookmark e i trimmedLine url =
     Bookmark \<lparr>b_id = ''bookmark-'' @ genId e i,
               b_title = sanitizeTitle e (case titleMatch ''</A>'' trimmedLine of
                                            Some t \<Rightarrow> t | None \<Rightarrow> ''Untitled''),
               b_url = url,
               b_addDate = Some (addDateOf e i trimmedLine),
               b_icon = Some (case attrMatch ''ICON'' trimmedLine of Some ic \<Rightarrow> ic | None \<Rightarrow> []),
               b_searchText = None\<rparr>"

text \<open>The body of the loop over the lines, for line \<open>i\<close>.\<close>

definition parseLine :: "env \<Rightarrow> frame list \<times> treeStats \<Rightarrow> nat \<times> string \<Rightarrow> frame list \<times> treeStats" where
  "parseLine e st il =
     (let (stack, sts) = st; (i, line) = il;
          trimmedLine = trim line;
          upper = toUpperCase trimmedLine
      in if startsWith upper ''<DL>'' then (openList stack, sts)
         else if startsWith upper ''</DL>'' then (closeList stack, sts)
         else if startsWith upper ''<DT><H3''
           then (pushChild (newFolder e i trimmedLine) stack,
                 sts\<lparr>folderCount := folderCount sts + 1\<rparr>)
         else if startsWith upper ''<DT><A''
           then (let url = (case attrMatch ''HREF'' trimmedLine of Some u \<Rightarrow> u | None \<Rightarrow> [])
                 in if url = [] \<or> startsWith (trim url) ''javascript:'' then (stack, sts)
                    else (pushChild (newBookmark e i trimmedLine url) stack,
                          sts\<lparr>bookmarkCount := bookmarkCount sts + 1\<rparr>))
         else (stack, sts))"

text \<open>The children of the root at the end: every folder still on the stack is where the
  source has it, the last child of the folder below.\<close>

fun closeAll :: "frame list \<Rightarrow> node list" where
  "closeAll [] = []"
| "closeAll [(f, cs)] = cs"
| "closeAll ((g, gcs) # (f, cs) # rest) = closeAll ((f, cs @ [Folder g gcs]) # rest)"

fun addFolderStats :: "node list \<Rightarrow> node list" where
  "addFolderStats [] = []"
| "addFolderStats (Bookmark b # ns) = Bookmark b # addFolderStats ns"
| "addFolderStats (Folder f cs # ns) =
     Folder (f\<lparr>f_childStats :=
                 Some (length (filter (\<lambda>c. case c of Bookmark _ \<Rightarrow> True | Folder _ _ \<Rightarrow> False) cs),
                       length (filter (\<lambda>c. case c of Bookmark _ \<Rightarrow> False | Folder _ _ \<Rightarrow> True) cs))\<rparr>)
       (addFolderStats cs)
     # addFolderStats ns"

definition parseBookmarks :: "env \<Rightarrow> string \<Rightarrow> node list \<times> treeStats" where
  "parseBookmarks e html =
     (let lines = splitLines html;
          (stack, sts) = foldl (parseLine e) ([rootFrame], \<lparr>bookmarkCount = 0, folderCount = 0\<rparr>)
                           (zip [0 ..< length lines] lines)
      in (addFolderStats (closeAll stack), sts))"

section \<open>Application state and reducer (AppContext.tsx)\<close>

text \<open>
  The fields of \<open>AppState\<close> that the transitions below read or write; the other fields
  (active and expanded folders, analysis results, the proposed tree, the list of empty
  folders, the debug flag) are copied unchanged by every one of them. A \<open>Set<string>\<close> is
  a set, its \<open>size\<close> the cardinality. The \<open>onConfirm\<close> callback of a confirmation and
  the \<open>details\<close> of a loading state are not part of the model.
\<close>

datatype appMode = Welcome | Normal | Duplicates | Insights | Filtered | EmptyFolders
  | HealthAudit | FixItAll

record filteredState =
  fs_title :: string
  fs_bookmarks :: "bookmark list"

record healthIssue =
  issue_bookmark :: bookmark
  issue_path :: string
  issue_status :: string
  issue_newUrl :: "string option"

record appState =
  bookmarks :: "node list option"
  stats :: "treeStats option"
  loadingState :: "bool \<times> string"
  appMode :: appMode
  duplicates :: "duplicateSet list"
  filteredState :: "filteredState option"
  healthAuditReport :: "healthIssue list option"
  selectedIssues :: "string set"
  isAIQuotaExceeded :: bool
  confirmation :: "(string \<times> string) option"
  searchQuery :: string

datatype action =
    SET_LOADING "bool option" "string option"
  | RESOLVE_DUPLICATES "string set" string
  | RESOLVE_ALL_DUPLICATES "string set"
  | DELETE_FILTERED_BOOKMARKS
  | DELETE_SELECTED_ISSUES
  | SET_AI_QUOTA_EXCEEDED bool

text \<open>\<open>state.stats ? { ...state.stats, bookmarkCount: newBookmarkCount } : null\<close> with
  \<open>newBookmarkCount = (state.stats?.bookmarkCount ?? 0) - idsToRemove.size\<close>.\<close>

definition statsAfterRemoval :: "treeStats option \<Rightarrow> string set \<Rightarrow> treeStats option" where
  "statsAfterRemoval st idsToRemove =
     (case st of
        None \<Rightarrow> None
      | Some x \<Rightarrow> Some (x\<lparr>bookmarkCount := bookmarkCount x - int (card idsToRemove)\<rparr>))"

fun appReducer :: "appState \<Rightarrow> action \<Rightarrow> appState" where
  "appReducer state (SET_LOADING isLoading message) =
     state\<lparr>loadingState :=
             (case isLoading of None \<Rightarrow> fst (loadingState state) | Some l \<Rightarrow> l,
              case message of None \<Rightarrow> snd (loadingState state) | Some m \<Rightarrow> m),
           confirmation := None\<rparr>"
| "appReducer state (RESOLVE_DUPLICATES idsToRemove urlToRemove) =
     (case bookmarks state of
        None \<Rightarrow> state
      | Some bs \<Rightarrow>
          state\<lparr>bookmarks := Some (removeBookmarksByIds bs idsToRemove),
                duplicates := filter (\<lambda>d. ds_url d \<noteq> urlToRemove) (duplicates state),
                stats := statsAfterRemoval (stats state) idsToRemove,
                confirmation := None\<rparr>)"
| "appReducer state (RESOLVE_ALL_DUPLICATES idsToRemove) =
     (case bookmarks state of
        None \<Rightarrow> state
      | Some bs \<Rightarrow>
          if card idsToRemove = 0
          then state\<lparr>appMode := Normal, duplicates := [], confirmation := None\<rparr>
          else state\<lparr>bookmarks := Some (removeEmptyFolders (removeBookmarksByIds bs idsToRemove)),
                     stats := statsAfterRemoval (stats state) idsToRemove,
                     appMode := Normal, duplicates := [], confirmation := None\<rparr>)"
| "appReducer state DELETE_FILTERED_BOOKMARKS =
     (case (bookmarks state, filteredState state) of
        (Some bs, Some fs) \<Rightarrow>
          (let idsToRemove = set (map b_id (fs_bookmarks fs)) in
           if card idsToRemove = 0 then state\<lparr>confirmation := None\<rparr>
           else state\<lparr>bookmarks := Some (removeEmptyFolders (removeBookmarksByIds bs idsToRemove)),
                      stats := statsAfterRemoval (stats state) idsToRemove,
                      appMode := (if searchQuery state \<noteq> [] then Normal else Insights),
                      filteredState := None, confirmation := None\<rparr>)
      | _ \<Rightarrow> state)"
| "appReducer state DELETE_SELECTED_ISSUES =
     (case bookmarks state of
        None \<Rightarrow> state\<lparr>confirmation := None\<rparr>
      | Some bs \<Rightarrow>
          if card (selectedIssues state) = 0 then state\<lparr>confirmation := None\<rparr>
          else state\<lparr>bookmarks := Some (removeEmptyFolders (removeBookmarksByIds bs (selectedIssues state))),
                     stats := statsAfterRemoval (stats state) (selectedIssues state),
                     appMode := Normal, healthAuditReport := None,
                     selectedIssues := {}, confirmation := None\<rparr>)"
| "appReducer state (SET_AI_QUOTA_EXCEEDED b) = state\<lparr>isAIQuotaExceeded := b\<rparr>"

text \<open>No folder of the tree is without a bookmark somewhere below it.\<close>

fun everyFolderHasBookmark :: "node list \<Rightarrow> bool" where
  "everyFolderHasBookmark [] = True"
| "everyFolderHasBookmark (Bookmark b # ns) = everyFolderHasBookmark ns"
| "everyFolderHasBookmark (Folder f cs # ns) =
     (flattenBookmarks cs \<noteq> [] \<and> everyFolderHasBookmark cs \<and> everyFolderHasBookmark ns)"

section \<open>Oracle-dependent actions (AppContext.tsx)\<close>

text \<open>
  What an action does to the outside: a dispatch to the reducer, a reachability probe
  (\<open>fetch\<close> with method HEAD), and the call of one of the two services that reach the
  external oracle, \<open>categorizeBookmarks\<close> (services/geminiService) and \<open>runAudit\<close>
  (services/linkCheckerService), with the bookmarks handed over. Each action is followed
  from its start up to its call of the service: the list is what it has done when it
  awaits the service, and it is empty when the action returns at its guard.
\<close>

datatype effect =
    Dispatch action
  | FetchHead string
  | CategorizeBookmarks "bookmark list"
  | RunAudit "bookmark list"

definition handleAutoCategorize :: "appState \<Rightarrow> effect list" where
  "handleAutoCategorize state =
     (case bookmarks state of
        None \<Rightarrow> []
      | Some bs \<Rightarrow>
          if isAIQuotaExceeded state then []
          else [Dispatch (SET_LOADING (Some True) (Some ''AI is analyzing bookmarks...'')),
                CategorizeBookmarks (flattenBookmarks bs)])"

definition runBookmarkHealthAudit :: "appState \<Rightarrow> effect list" where
  "runBookmarkHealthAudit state =
     (case bookmarks state of
        None \<Rightarrow> []
      | Some bs \<Rightarrow>
          [Dispatch (SET_LOADING (Some True) (Some ''Preparing Health Audit...'')),
           RunAudit (flattenBookmarks bs)])"

text \<open>The loop \<open>for (i = 0; i < xs.length; i += n)\<close> over \<open>xs.slice(i, i + n)\<close>.\<close>

function chunksOf :: "nat \<Rightarrow> 'a list \<Rightarrow> 'a list list" where
  "chunksOf n xs = (if xs = [] \<or> n = 0 then [] else take n xs # chunksOf n (drop n xs))"
  by pat_completeness auto
termination
  by (relation "measure (\<lambda>(n, xs). length xs)") auto

text \<open>Step 1 of \<open>generateFixItAllProposal\<close>: of every duplicate group, sorted by ascending
  \<open>addDate\<close>, all but the first are marked.\<close>

definition duplicateLosers :: "bookmark list \<Rightarrow> string set" where
  "duplicateLosers allBookmarks =
     foldl (\<lambda>idsToRemove group.
              idsToRemove \<union> set (map b_id (drop 1 (jsSort compareAddDate (snd group)))))
       {} (objectEntries (findDuplicates allBookmarks))"

text \<open>Step 2: the probes of one chunk, and the ids of the bookmarks whose probe failed;
  \<open>alive url\<close> is the outcome of the probe.\<close>

definition probeChunk :: "(string \<Rightarrow> bool) \<Rightarrow> effect list \<times> string set \<Rightarrow> bookmark list \<Rightarrow> effect list \<times> string set" where
  "probeChunk alive acc chunk =
     (fst acc @ map (\<lambda>bm. FetchHead (b_url bm)) chunk
        @ [Dispatch (SET_LOADING None (Some ''Step 2/3: Checking for dead links...''))],
      snd acc \<union> set (map b_id (filter (\<lambda>bm. \<not> alive (b_url bm)) chunk)))"

definition generateFixItAllProposal :: "(string \<Rightarrow> bool) \<Rightarrow> appState \<Rightarrow> effect list" where
  "generateFixItAllProposal alive state =
     (case bookmarks state of
        None \<Rightarrow> []
      | Some bs \<Rightarrow>
          (let allBookmarks = flattenBookmarks bs;
               dups = duplicateLosers allBookmarks;
               uniqueBookmarks = filter (\<lambda>bm. b_id bm \<notin> dups) allBookmarks;
               (probes, idsToRemove) = foldl (probeChunk alive) ([], dups) (chunksOf 50 uniqueBookmarks);
               goodBookmarks = filter (\<lambda>bm. b_id bm \<notin> idsToRemove) allBookmarks
           in [Dispatch (SET_LOADING (Some True) (Some ''Fix It All: Starting...'')),
               Dispatch (SET_LOADING (Some True) (Some ''Step 1/3: Identifying duplicates...'')),
               Dispatch (SET_LOADING (Some True) (Some ''Step 2/3: Checking for dead links...''))]
              @ probes
              @ [Dispatch (SET_LOADING (Some True) (Some ''Step 3/3: AI Re-organization...'')),
                 CategorizeBookmarks goodBookmarks]))"

section \<open>Folder removal on the store (utils/bookmarkUtils.ts)\<close>

text \<open>
  \<open>removeFoldersByIds\<close> assigns to \<open>node.children\<close>, so it is read on a store: an
  object is an address, the store the list of the objects, a folder holds the addresses of
  its children. The recursion follows addresses, which a store can make cyclic; the first
  argument bounds its depth, and \<open>None\<close> is a bound that was too small or an address
  outside the store.
\<close>

datatype hnode = HBookmark bookmark | HFolder folder_info "nat list"

type_synonym heap = "hnode list"

text \<open>The tree that a list of addresses stands for.\<close>

fun readTree :: "nat \<Rightarrow> heap \<Rightarrow> nat list \<Rightarrow> node list option" where
  "readTree 0 h as = None"
| "readTree (Suc k) h [] = Some []"
| "readTree (Suc k) h (a # as) =
     (if a \<ge> length h then None
      else (case h ! a of
              HBookmark b \<Rightarrow>
                (case readTree (Suc k) h as of
                   None \<Rightarrow> None
                 | Some rest \<Rightarrow> Some (Bookmark b # rest))
            | HFolder f cs \<Rightarrow>
                (case readTree k h cs of
                   None \<Rightarrow> None
                 | Some kids \<Rightarrow>
                     (case readTree (Suc k) h as of
                        None \<Rightarrow> None
                      | Some rest \<Rightarrow> Some (Folder f kids # rest)))))"

text \<open>\<open>node.children = cs\<close> on the object at address \<open>a\<close>.\<close>

definition setChildren :: "heap \<Rightarrow> nat \<Rightarrow> nat list \<Rightarrow> heap" where
  "setChildren h a cs =
     (case h ! a of
        HFolder f old \<Rightarrow> h[a := HFolder f cs]
      | HBookmark b \<Rightarrow> h)"

text \<open>
  \<open>removeFoldersByIds\<close>: the store after the call, the addresses of \<open>cleanedBookmarks\<close>
  and \<open>removedCount\<close>. A folder whose id is in the set is skipped and counted; any other
  folder gets the cleaned list of its children assigned to its own \<open>children\<close> field and
  is pushed itself, not a copy of it.
\<close>

fun removeFoldersByIds :: "nat \<Rightarrow> heap \<Rightarrow> nat list \<Rightarrow> string set \<Rightarrow> (heap \<times> nat list \<times> nat) option" where
  "removeFoldersByIds 0 h as S = None"
| "removeFoldersByIds (Suc k) h [] S = Some (h, [], 0)"
| "removeFoldersByIds (Suc k) h (a # as) S =
     (if a \<ge> length h then None
      else (case h ! a of
              HFolder f cs \<Rightarrow>
                if f_id f \<in> S
                then (case removeFoldersByIds (Suc k) h as S of
                        None \<Rightarrow> None
                      | Some (h', acc, n) \<Rightarrow> Some (h', acc, n + 1))
                else (case removeFoldersByIds k h cs S of
                        None \<Rightarrow> None
                      | Some (h1, cleaned, n1) \<Rightarrow>
                          (case removeFoldersByIds (Suc k) (setChildren h1 a cleaned) as S of
                             None \<Rightarrow> None
                           | Some (h2, acc, n2) \<Rightarrow> Some (h2, a # acc, n1 + n2)))
            | HBookmark b \<Rightarrow>
                (case removeFoldersByIds (Suc k) h as S of
                   None \<Rightarrow> None
                 | Some (h', acc, n) \<Rightarrow> Some (h', a # acc, n))))"

text \<open>
  \<open>removeBookmarksByIds\<close> on the same store: \<open>{ ...node, children: cs }\<close> is a new object,
  at the next free address.
\<close>

fun removeBookmarksByIdsOnStore :: "nat \<Rightarrow> heap \<Rightarrow> nat list \<Rightarrow> string set \<Rightarrow> (heap \<times> nat list) option" where
  "removeBookmarksByIdsOnStore 0 h as S = None"
| "removeBookmarksByIdsOnStore (Suc k) h [] S = Some (h, [])"
| "removeBookmarksByIdsOnStore (Suc k) h (a # as) S =
     (if a \<ge> length h then None
      else (case h ! a of
              HBookmark b \<Rightarrow>
                if b_id b \<in> S then removeBookmarksByIdsOnStore (Suc k) h as S
                else (case removeBookmarksByIdsOnStore (Suc k) h as S of
                        None \<Rightarrow> None
                      | Some (h', acc) \<Rightarrow> Some (h', a # acc))
            | HFolder f cs \<Rightarrow>
                (case removeBookmarksByIdsOnStore k h cs S of
                   None \<Rightarrow> None
                 | Some (h1, filtered) \<Rightarrow>
                     (case removeBookmarksByIdsOnStore (Suc k) (h1 @ [HFolder f filtered]) as S of
                        None \<Rightarrow> None
                      | Some (h2, acc) \<Rightarrow> Some (h2, length h1 # acc)))))"

section \<open>Notions of the statements and example inputs\<close>

definition mkBookmark :: "string \<Rightarrow> string \<Rightarrow> string \<Rightarrow> string option \<Rightarrow> bookmark" where
  "mkBookmark i t u d =
     \<lparr>b_id = i, b_title = t, b_url = u, b_addDate = d, b_icon = None, b_searchText = None\<rparr>"

definition mkFolder :: "string \<Rightarrow> string \<Rightarrow> folder_info" where
  "mkFolder i t =
     \<lparr>f_id = i, f_title = t, f_addDate = None, f_isAICategory = None, f_childStats = None\<rparr>"

text \<open>A folder with one bookmark, and two bookmarks at the root.\<close>

definition exTree :: "node list" where
  "exTree =
     [Folder (mkFolder ''f1'' ''Bar'') [Bookmark (mkBookmark ''b1'' ''One'' ''https://one.example'' None)],
      Bookmark (mkBookmark ''b2'' ''Two'' ''https://two.example'' None),
      Bookmark (mkBookmark ''b3'' ''Three'' ''https://three.example'' None)]"

text \<open>A state over that tree, in the filtered view on the bookmark of the folder, with the
  same bookmark selected as a health issue, and the quota flag set.\<close>

definition exState :: appState where
  "exState =
     \<lparr>bookmarks = Some exTree, stats = Some \<lparr>bookmarkCount = 3, folderCount = 1\<rparr>,
      loadingState = (False, []), appMode = Filtered, duplicates = [],
      filteredState = Some \<lparr>fs_title = ''Bookmarks from: one.example'',
                             fs_bookmarks = [mkBookmark ''b1'' ''One'' ''https://one.example'' None]\<rparr>,
      healthAuditReport = None, selectedIssues = {''b1''},
      isAIQuotaExceeded = True, confirmation = None, searchQuery = []\<rparr>"

text \<open>A store with a folder at address 0 that holds an empty folder (address 1) and a
  bookmark (address 2), and the same store after the children of the folder at address 0
  have been replaced.\<close>

definition exStore :: heap where
  "exStore =
     [HFolder (mkFolder ''f1'' ''Work'') [1, 2],
      HFolder (mkFolder ''f2'' ''Old'') [],
      HBookmark (mkBookmark ''b1'' ''One'' ''https://one.example'' None)]"

definition exStoreAfter :: heap where
  "exStoreAfter =
     [HFolder (mkFolder ''f1'' ''Work'') [2],
      HFolder (mkFolder ''f2'' ''Old'') [],
      HBookmark (mkBookmark ''b1'' ''One'' ''https://one.example'' None)]"

text \<open>Two bookmarks with the same url: the older one at the root, the newer one in the
  folder Bar.\<close>

definition exDupTree :: "node list" where
  "exDupTree =
     [Bookmark (mkBookmark ''a'' ''Site'' ''https://a.example'' (Some ''100'')),
      Folder (mkFolder ''f'' ''Bar'')
        [Bookmark (mkBookmark ''b'' ''Site'' ''https://a.example'' (Some ''200''))]]"

text \<open>An environment of the parser: the clock stands at 1700000000123 milliseconds.\<close>

definition exEnv :: env where
  "exEnv = \<lparr>genId = (\<lambda>i. ''x'' @ intToString (int i)), clock = (\<lambda>i. 1700000000123), sanitizeTitle = trim\<rparr>"

text \<open>The band of a bookmark at time \<open>now\<close>, when its date is valid, and the six labels in
  the order of the \<open>ageGroups\<close> object.\<close>

definition labelOf :: "int \<Rightarrow> bookmark \<Rightarrow> string option" where
  "labelOf now b = map_option (\<lambda>t. ageLabel (now - t)) (addDateTime b)"

definition ageLabels :: "string list" where
  "ageLabels = [''Over 5 years old'', ''2-5 years old'', ''1-2 years old'',
      ''6-12 months old'', ''1-6 months old'', ''Less than 1 month old'']"

text \<open>The bands as the amended claim words them, with their lower bounds in days.\<close>

definition days :: "int \<Rightarrow> int" where
  "days n = n * (24 * 60 * 60 * 1000)"

definition bandByDays :: "int \<Rightarrow> string" where
  "bandByDays age =
     (if age > days 1800 then ''Over 5 years old''
      else if age > days 720 then ''2-5 years old''
      else if age > days 360 then ''1-2 years old''
      else if age > days 180 then ''6-12 months old''
      else if age > days 30 then ''1-6 months old''
      else ''Less than 1 month old'')"

text \<open>A time 362 days after the date of the first of three bookmarks; the second is a few
  days old and the third has no date.\<close>

definition exNow :: int where
  "exNow = 1031276800000"

definition exAged :: "bookmark list" where
  "exAged =
     [mkBookmark ''old'' ''Old'' ''https://old.example'' (Some ''1000000000''),
      mkBookmark ''new'' ''New'' ''https://new.example'' (Some ''1031000000''),
      mkBookmark ''none'' ''None'' ''https://none.example'' None]"

text \<open>The \<open>addDate\<close> of a node; a tree in which every node has one; and a stack of the
  parser in which every node and every open folder above the root has one.\<close>

fun nodeAddDate :: "node \<Rightarrow> string option" where
  "nodeAddDate (Bookmark b) = b_addDate b"
| "nodeAddDate (Folder f cs) = f_addDate f"

fun allHaveAddDate :: "node list \<Rightarrow> bool" where
  "allHaveAddDate [] = True"
| "allHaveAddDate (Bookmark b # ns) = (b_addDate b \<noteq> None \<and> allHaveAddDate ns)"
| "allHaveAddDate (Folder f cs # ns) = (f_addDate f \<noteq> None \<and> allHaveAddDate cs \<and> allHaveAddDate ns)"

fun stackHasAddDates :: "frame list \<Rightarrow> bool" where
  "stackHasAddDates [] = True"
| "stackHasAddDates [(f, cs)] = allHaveAddDate cs"
| "stackHasAddDates ((g, gcs) # fr # rest) =
     (f_addDate g \<noteq> None \<and> allHaveAddDate gcs \<and> stackHasAddDates (fr # rest))"

text \<open>The root folder of the parser, an entry line without \<open>ADD_DATE\<close>, and the counters at
  the start.\<close>

definition rootInfo :: folder_info where
  "rootInfo = fst rootFrame"

definition exLine :: string where
  \<open>exLine = ''<DT><A HREF="http://a.example">A</A>''\<close>

definition noStats :: treeStats where
  "noStats = \<lparr>bookmarkCount = 0, folderCount = 0\<rparr>"

text \<open>Two titles with a stop word, a number, short tokens and repeated keywords.\<close>

definition exTitles :: "bookmark list" where
  "exTitles =
     [mkBookmark ''k1'' ''The Rust Book, 2021 rust guide'' ''https://doc.example'' None,
      mkBookmark ''k2'' ''Learn Rust  -- the book! x'' ''https://learn.example'' None]"

text \<open>
  The pruning as the claim words it, to compare with \<open>removeEmptyFolders\<close>: a folder with
  no bookmark anywhere below it is left out, and every other folder is kept with its own
  fields, its children pruned in the same way; a bookmark is kept.
\<close>

fun pruneBookmarklessFolders :: "node list \<Rightarrow> node list" where
  "pruneBookmarklessFolders [] = []"
| "pruneBookmarklessFolders (Bookmark b # ns) = Bookmark b # pruneBookmarklessFolders ns"
| "pruneBookmarklessFolders (Folder f cs # ns) =
     (if flattenBookmarks cs = [] then pruneBookmarklessFolders ns
      else Folder f (pruneBookmarklessFolders cs) # pruneBookmarklessFolders ns)"

text \<open>A tree with a folder holding one bookmark, a folder holding a bookmark and an empty
  folder, and a bookmark at the root; a state over it with the bookmark of the first folder
  filtered and selected; and the same state with nothing filtered and nothing selected.\<close>

definition exPruneTree :: "node list" where
  "exPruneTree =
     [Folder (mkFolder ''f1'' ''Bar'') [Bookmark (mkBookmark ''b1'' ''One'' ''https://one.example'' None)],
      Folder (mkFolder ''f2'' ''Keep'')
        [Bookmark (mkBookmark ''b4'' ''Four'' ''https://four.example'' None),
         Folder (mkFolder ''f3'' ''Void'') []],
      Bookmark (mkBookmark ''b2'' ''Two'' ''https://two.example'' None)]"

definition exPruneState :: appState where
  "exPruneState =
     \<lparr>bookmarks = Some exPruneTree, stats = Some \<lparr>bookmarkCount = 3, folderCount = 3\<rparr>,
      loadingState = (False, []), appMode = Filtered, duplicates = [],
      filteredState = Some \<lparr>fs_title = ''Bookmarks from: one.example'',
                             fs_bookmarks = [mkBookmark ''b1'' ''One'' ''https://one.example'' None]\<rparr>,
      healthAuditReport = None, selectedIssues = {''b1''},
      isAIQuotaExceeded = False, confirmation = None, searchQuery = []\<rparr>"

definition exIdleState :: appState where
  "exIdleState =
     \<lparr>bookmarks = Some exPruneTree, stats = Some \<lparr>bookmarkCount = 3, folderCount = 3\<rparr>,
      loadingState = (False, []), appMode = Filtered, duplicates = [],
      filteredState = Some \<lparr>fs_title = ''Bookmarks from: none.example'', fs_bookmarks = []\<rparr>,
      healthAuditReport = None, selectedIssues = {},
      isAIQuotaExceeded = False, confirmation = None, searchQuery = []\<rparr>"

section \<open>Pruning empty folders keeps every bookmark\<close>

text \<open>
  Claim C3. For every tree \<open>T\<close>, flattening the tree pruned of its empty folders gives
  the same bookmark list as flattening \<open>T\<close>: no bookmark is removed and the depth-first
  order is kept.
\<close>

theorem flatten_removeEmptyFolders:
  "flattenBookmarks (removeEmptyFolders T) = flattenBookmarks T"
proof (induction T rule: removeEmptyFolders.induct)
  case 1
  show ?case by simp
next
  case (2 f cs ns)
  show ?case
  proof (cases "removeEmptyFolders cs")
    case Nil
    with 2 have "flattenBookmarks cs = []" by simp
    with 2 Nil show ?thesis by simp
  next
    case (Cons c cs')
    with 2 show ?thesis by simp
  qed
next
  case (3 b ns)
  then show ?case by simp
qed

section \<open>Removing bookmarks by id\<close>

lemma flatten_removeBookmarksByIds:
  "flattenBookmarks (removeBookmarksByIds T S) = filter (\<lambda>b. b_id b \<notin> S) (flattenBookmarks T)"
  by (induction T S rule: removeBookmarksByIds.induct) simp_all

lemma foldersOnly_removeBookmarksByIds:
  "foldersOnly (removeBookmarksByIds T S) = foldersOnly T"
  by (induction T S rule: removeBookmarksByIds.induct) simp_all

text \<open>
  Claim C4. For every tree \<open>T\<close> and id set \<open>S\<close>: every bookmark of the flattened result of
  \<open>removeBookmarksByIds\<close> has an id outside \<open>S\<close>; the flattened result is the flattened
  \<open>T\<close> with exactly the bookmarks whose id is in \<open>S\<close> left out, the others unchanged and in
  their order; and the folders of the result are the folders of \<open>T\<close>, none removed, whether
  its id is in \<open>S\<close> or it has become empty.
\<close>

theorem removeBookmarksByIds_spec:
  "(\<forall>b \<in> set (flattenBookmarks (removeBookmarksByIds T S)). b_id b \<notin> S)
   \<and> flattenBookmarks (removeBookmarksByIds T S) = filter (\<lambda>b. b_id b \<notin> S) (flattenBookmarks T)
   \<and> foldersOnly (removeBookmarksByIds T S) = foldersOnly T"
proof (intro conjI ballI)
  fix b
  assume "b \<in> set (flattenBookmarks (removeBookmarksByIds T S))"
  then have "b \<in> set (filter (\<lambda>b. b_id b \<notin> S) (flattenBookmarks T))"
    by (simp only: flatten_removeBookmarksByIds)
  then show "b_id b \<notin> S"
    by simp
next
  show "flattenBookmarks (removeBookmarksByIds T S) = filter (\<lambda>b. b_id b \<notin> S) (flattenBookmarks T)"
    by (rule flatten_removeBookmarksByIds)
next
  show "foldersOnly (removeBookmarksByIds T S) = foldersOnly T"
    by (rule foldersOnly_removeBookmarksByIds)
qed

theorem removeBookmarksByIds_spec_witness:
  "flattenBookmarks (removeBookmarksByIds exTree {''b1'', ''f1'', ''b3''})
     = [mkBookmark ''b2'' ''Two'' ''https://two.example'' None]
   \<and> foldersOnly (removeBookmarksByIds exTree {''b1'', ''f1'', ''b3''}) = [Folder (mkFolder ''f1'' ''Bar'') []]
   \<and> b_id (mkBookmark ''b2'' ''Two'' ''https://two.example'' None) \<notin> {''b1'', ''f1'', ''b3''}"
  using removeBookmarksByIds_spec [of exTree "{''b1'', ''f1'', ''b3''}"]
  by (simp add: exTree_def mkBookmark_def mkFolder_def)

section \<open>Bulk deletions prune empty folders\<close>

text \<open>\<open>removeEmptyFolders\<close> tests the cleaned children of a folder; that list is empty
  exactly when no bookmark lies below the folder, so the function is the pruning of the
  folders without bookmarks: it drops those folders and no other, and changes no field of
  a folder it keeps.\<close>

lemma removeEmptyFolders_empty_iff:
  "(removeEmptyFolders T = []) = (flattenBookmarks T = [])"
  by (induction T rule: removeEmptyFolders.induct) (auto simp: Let_def)

lemma removeEmptyFolders_prunes:
  "removeEmptyFolders T = pruneBookmarklessFolders T"
proof (induction T rule: removeEmptyFolders.induct)
  case 1
  show ?case by simp
next
  case (2 f cs ns)
  show ?case
  proof (cases "flattenBookmarks cs = []")
    case True
    then have "removeEmptyFolders cs = []"
      by (simp add: removeEmptyFolders_empty_iff)
    with 2 True show ?thesis by simp
  next
    case False
    then have "removeEmptyFolders cs \<noteq> []"
      by (simp add: removeEmptyFolders_empty_iff)
    with 2 False show ?thesis by simp
  qed
next
  case (3 b ns)
  then show ?case by simp
qed

lemma flatten_pruneBookmarklessFolders:
  "flattenBookmarks (pruneBookmarklessFolders T) = flattenBookmarks T"
  by (induction T rule: pruneBookmarklessFolders.induct) simp_all

lemma everyFolderHasBookmark_prune:
  "everyFolderHasBookmark (pruneBookmarklessFolders T)"
  by (induction T rule: pruneBookmarklessFolders.induct)
    (simp_all add: flatten_pruneBookmarklessFolders)

text \<open>
  Claim C10, as the source has it. The claim is that each of the three transitions, after
  removing the given bookmarks, prunes every folder left without a bookmark below it. With
  an empty id set each of them returns before removing and pruning: on \<open>exIdleState\<close>
  (empty payload, empty filtered list, empty selection) the tree is left as it is, with
  its empty folder, which the pruning would have removed.
\<close>

theorem empty_id_set_counterexample:
  "bookmarks (appReducer exIdleState (RESOLVE_ALL_DUPLICATES {})) = Some exPruneTree
   \<and> bookmarks (appReducer exIdleState DELETE_FILTERED_BOOKMARKS) = Some exPruneTree
   \<and> bookmarks (appReducer exIdleState DELETE_SELECTED_ISSUES) = Some exPruneTree
   \<and> \<not> everyFolderHasBookmark exPruneTree
   \<and> removeEmptyFolders (removeBookmarksByIds exPruneTree {})
       = [Folder (mkFolder ''f1'' ''Bar'') [Bookmark (mkBookmark ''b1'' ''One'' ''https://one.example'' None)],
          Folder (mkFolder ''f2'' ''Keep'') [Bookmark (mkBookmark ''b4'' ''Four'' ''https://four.example'' None)],
          Bookmark (mkBookmark ''b2'' ''Two'' ''https://two.example'' None)]"
proof (intro conjI)
  show "bookmarks (appReducer exIdleState (RESOLVE_ALL_DUPLICATES {})) = Some exPruneTree"
    by (simp add: exIdleState_def)
  show "bookmarks (appReducer exIdleState DELETE_FILTERED_BOOKMARKS) = Some exPruneTree"
    by (simp add: exIdleState_def)
  show "bookmarks (appReducer exIdleState DELETE_SELECTED_ISSUES) = Some exPruneTree"
    by (simp add: exIdleState_def)
  show "\<not> everyFolderHasBookmark exPruneTree"
    by (simp add: exPruneTree_def)
  show "removeEmptyFolders (removeBookmarksByIds exPruneTree {})
       = [Folder (mkFolder ''f1'' ''Bar'') [Bookmark (mkBookmark ''b1'' ''One'' ''https://one.example'' None)],
          Folder (mkFolder ''f2'' ''Keep'') [Bookmark (mkBookmark ''b4'' ''Four'' ''https://four.example'' None)],
          Bookmark (mkBookmark ''b2'' ''Two'' ''https://two.example'' None)]"
    by (simp add: exPruneTree_def mkBookmark_def mkFolder_def)
qed

text \<open>
  Claim C10, amended. On a state with a tree \<open>T\<close>, each of \<open>RESOLVE_ALL_DUPLICATES\<close>,
  \<open>DELETE_FILTERED_BOOKMARKS\<close> and \<open>DELETE_SELECTED_ISSUES\<close> with a non-empty id set (the
  payload, the ids of the filtered bookmarks, the selected issues) leaves the tree in which
  the bookmarks with those ids are removed and then exactly the folders with no bookmark
  left below them are pruned, the other folders keeping their fields: the bookmarks of the
  result are those of \<open>T\<close> with an id outside the set, in their order, and no folder
  without a bookmark remains, selected or not. With an empty id set, and for
  \<open>DELETE_FILTERED_BOOKMARKS\<close> with no filtered state, the tree is left as it is.
\<close>

theorem bulk_deletion_prunes_folders:
  assumes "bookmarks s = Some T"
  shows "bookmarks (appReducer s (RESOLVE_ALL_DUPLICATES S))
           = Some (if card S = 0 then T
                   else pruneBookmarklessFolders (removeBookmarksByIds T S))
       \<and> (\<forall>fs. filteredState s = Some fs \<longrightarrow>
            bookmarks (appReducer s DELETE_FILTERED_BOOKMARKS)
              = Some (if fs_bookmarks fs = [] then T
                      else pruneBookmarklessFolders
                             (removeBookmarksByIds T (set (map b_id (fs_bookmarks fs))))))
       \<and> (filteredState s = None \<longrightarrow>
            bookmarks (appReducer s DELETE_FILTERED_BOOKMARKS) = Some T)
       \<and> bookmarks (appReducer s DELETE_SELECTED_ISSUES)
           = Some (if card (selectedIssues s) = 0 then T
                   else pruneBookmarklessFolders (removeBookmarksByIds T (selectedIssues s)))
       \<and> flattenBookmarks (pruneBookmarklessFolders (removeBookmarksByIds T S))
           = filter (\<lambda>b. b_id b \<notin> S) (flattenBookmarks T)
       \<and> everyFolderHasBookmark (pruneBookmarklessFolders (removeBookmarksByIds T S))"
proof (intro conjI allI impI)
  show "bookmarks (appReducer s (RESOLVE_ALL_DUPLICATES S))
      = Some (if card S = 0 then T else pruneBookmarklessFolders (removeBookmarksByIds T S))"
    using assms by (simp add: removeEmptyFolders_prunes)
next
  fix fs
  assume fs: "filteredState s = Some fs"
  have "(card (set (map b_id (fs_bookmarks fs))) = 0) = (fs_bookmarks fs = [])"
    by (simp add: card_eq_0_iff)
  with assms fs show "bookmarks (appReducer s DELETE_FILTERED_BOOKMARKS)
      = Some (if fs_bookmarks fs = [] then T
              else pruneBookmarklessFolders
                     (removeBookmarksByIds T (set (map b_id (fs_bookmarks fs)))))"
    by (simp add: Let_def removeEmptyFolders_prunes)
next
  assume "filteredState s = None"
  with assms show "bookmarks (appReducer s DELETE_FILTERED_BOOKMARKS) = Some T"
    by simp
next
  show "bookmarks (appReducer s DELETE_SELECTED_ISSUES)
      = Some (if card (selectedIssues s) = 0 then T
              else pruneBookmarklessFolders (removeBookmarksByIds T (selectedIssues s)))"
    using assms by (simp add: removeEmptyFolders_prunes)
next
  show "flattenBookmarks (pruneBookmarklessFolders (removeBookmarksByIds T S))
      = filter (\<lambda>b. b_id b \<notin> S) (flattenBookmarks T)"
    by (simp only: flatten_pruneBookmarklessFolders flatten_removeBookmarksByIds)
next
  show "everyFolderHasBookmark (pruneBookmarklessFolders (removeBookmarksByIds T S))"
    by (rule everyFolderHasBookmark_prune)
qed

theorem bulk_deletion_prunes_folders_witness:
  "bookmarks exPruneState = Some exPruneTree
   \<and> card {''b1''} \<noteq> 0
   \<and> bookmarks (appReducer exPruneState (RESOLVE_ALL_DUPLICATES {''b1''}))
       = Some [Folder (mkFolder ''f2'' ''Keep'') [Bookmark (mkBookmark ''b4'' ''Four'' ''https://four.example'' None)],
               Bookmark (mkBookmark ''b2'' ''Two'' ''https://two.example'' None)]
   \<and> bookmarks (appReducer exPruneState DELETE_FILTERED_BOOKMARKS)
       = Some [Folder (mkFolder ''f2'' ''Keep'') [Bookmark (mkBookmark ''b4'' ''Four'' ''https://four.example'' None)],
               Bookmark (mkBookmark ''b2'' ''Two'' ''https://two.example'' None)]
   \<and> bookmarks (appReducer exPruneState DELETE_SELECTED_ISSUES)
       = Some [Folder (mkFolder ''f2'' ''Keep'') [Bookmark (mkBookmark ''b4'' ''Four'' ''https://four.example'' None)],
               Bookmark (mkBookmark ''b2'' ''Two'' ''https://two.example'' None)]
   \<and> bookmarks (appReducer exPruneState (RESOLVE_DUPLICATES {''b1''} ''https://one.example''))
       = Some [Folder (mkFolder ''f1'' ''Bar'') [],
               Folder (mkFolder ''f2'' ''Keep'')
                 [Bookmark (mkBookmark ''b4'' ''Four'' ''https://four.example'' None),
                  Folder (mkFolder ''f3'' ''Void'') []],
               Bookmark (mkBookmark ''b2'' ''Two'' ''https://two.example'' None)]"
proof -
  let ?R = "[Folder (mkFolder ''f2'' ''Keep'') [Bookmark (mkBookmark ''b4'' ''Four'' ''https://four.example'' None)],
             Bookmark (mkBookmark ''b2'' ''Two'' ''https://two.example'' None)]"
  have b: "bookmarks exPruneState = Some exPruneTree"
    by (simp add: exPruneState_def)
  have c: "card {''b1''} \<noteq> 0"
    by simp
  have r: "pruneBookmarklessFolders (removeBookmarksByIds exPruneTree {''b1''}) = ?R"
    by (simp add: exPruneTree_def mkBookmark_def mkFolder_def)
  have f: "filteredState exPruneState = Some \<lparr>fs_title = ''Bookmarks from: one.example'',
                             fs_bookmarks = [mkBookmark ''b1'' ''One'' ''https://one.example'' None]\<rparr>"
    by (simp add: exPruneState_def)
  have sel: "selectedIssues exPruneState = {''b1''}"
    by (simp add: exPruneState_def)
  have d: "bookmarks (appReducer exPruneState (RESOLVE_DUPLICATES {''b1''} ''https://one.example''))
       = Some [Folder (mkFolder ''f1'' ''Bar'') [],
               Folder (mkFolder ''f2'' ''Keep'')
                 [Bookmark (mkBookmark ''b4'' ''Four'' ''https://four.example'' None),
                  Folder (mkFolder ''f3'' ''Void'') []],
               Bookmark (mkBookmark ''b2'' ''Two'' ''https://two.example'' None)]"
    by (simp add: b) (simp add: exPruneTree_def mkBookmark_def mkFolder_def)
  note t = bulk_deletion_prunes_folders [OF b, of "{''b1''}"]
  from t c r have r1: "bookmarks (appReducer exPruneState (RESOLVE_ALL_DUPLICATES {''b1''})) = Some ?R"
    by simp
  from t f r have r2: "bookmarks (appReducer exPruneState DELETE_FILTERED_BOOKMARKS) = Some ?R"
    by (simp add: mkBookmark_def)
  from t sel c r have r3: "bookmarks (appReducer exPruneState DELETE_SELECTED_ISSUES) = Some ?R"
    by simp
  from b c r1 r2 r3 d show ?thesis
    by (intro conjI)
qed

section \<open>Folder removal writes into its input\<close>

text \<open>The sibling \<open>removeBookmarksByIds\<close> only adds objects to the store: every object
  that was there before the call is unchanged after it.\<close>

lemma removeBookmarksByIdsOnStore_keeps_store:
  "removeBookmarksByIdsOnStore k h as S = Some (h', out) \<Longrightarrow> prefix h h'"
proof (induction k h as S arbitrary: h' out rule: removeBookmarksByIdsOnStore.induct)
  case (1 h as S)
  then show ?case by simp
next
  case (2 k h S)
  then show ?case by simp
next
  case (3 k h a as S)
  show ?case
  proof (cases "h ! a")
    case (HBookmark b)
    with 3 show ?thesis
      by (auto split: if_splits option.splits)
  next
    case (HFolder f cs)
    from 3(5) HFolder obtain h1 filtered h2 acc where
      r1: "removeBookmarksByIdsOnStore k h cs S = Some (h1, filtered)" and
      r2: "removeBookmarksByIdsOnStore (Suc k) (h1 @ [HFolder f filtered]) as S = Some (h2, acc)" and
      a: "\<not> length h \<le> a" and h': "h' = h2"
      by (auto split: if_splits option.splits)
    from 3(3) [OF a HFolder r1] have p1: "prefix h h1" .
    from 3(4) [OF a HFolder r1 refl r2] have "prefix (h1 @ [HFolder f filtered]) h2" .
    then have "prefix h1 h2"
      by (rule append_prefixD)
    with p1 h' show ?thesis
      by (auto intro: prefix_order.trans)
  qed
qed

text \<open>A tree read from a store is read unchanged from any extension of the store; so
  \<open>removeBookmarksByIds\<close> on the store, given enough depth to read the input, returns,
  leaves the input tree as it was, and its result reads as the result of the function on
  trees.\<close>

lemma readTree_prefix:
  "readTree k h as = Some T \<Longrightarrow> prefix h h' \<Longrightarrow> readTree k h' as = Some T"
proof (induction k h as arbitrary: T rule: readTree.induct)
  case (1 h as)
  then show ?case by simp
next
  case (2 k h)
  then show ?case by simp
next
  case (3 k h a as)
  from 3(4) have a: "\<not> length h \<le> a"
    by (auto split: if_splits)
  from 3(5) obtain zs where h': "h' = h @ zs"
    by (auto simp: prefix_def)
  with a have nth: "h' ! a = h ! a" and len: "\<not> length h' \<le> a"
    by (simp_all add: nth_append)
  show ?case
  proof (cases "h ! a")
    case (HBookmark b)
    with 3(4) a obtain rest where r: "readTree (Suc k) h as = Some rest" and T: "T = Bookmark b # rest"
      by (auto split: option.splits)
    from 3(1) [OF a HBookmark r 3(5)] have "readTree (Suc k) h' as = Some rest" .
    with HBookmark nth len T show ?thesis by simp
  next
    case (HFolder f cs)
    with 3(4) a obtain kids rest where k: "readTree k h cs = Some kids"
      and r: "readTree (Suc k) h as = Some rest" and T: "T = Folder f kids # rest"
      by (auto split: option.splits)
    from 3(2) [OF a HFolder k 3(5)] have k': "readTree k h' cs = Some kids" .
    from 3(3) [OF a HFolder k r 3(5)] have "readTree (Suc k) h' as = Some rest" .
    with k' HFolder nth len T show ?thesis by simp
  qed
qed

lemma removeBookmarksByIdsOnStore_refines:
  "readTree k h as = Some T \<Longrightarrow>
     \<exists>h' out. removeBookmarksByIdsOnStore k h as S = Some (h', out)
       \<and> prefix h h' \<and> readTree k h' out = Some (removeBookmarksByIds T S)"
proof (induction k h as S arbitrary: T rule: removeBookmarksByIdsOnStore.induct)
  case (1 h as S)
  then show ?case by simp
next
  case (2 k h S)
  then show ?case by simp
next
  case (3 k h a as S)
  from 3(5) have a: "\<not> length h \<le> a"
    by (auto split: if_splits)
  show ?case
  proof (cases "h ! a")
    case (HBookmark b)
    with 3(5) a obtain rest where r: "readTree (Suc k) h as = Some rest" and T: "T = Bookmark b # rest"
      by (auto split: option.splits)
    show ?thesis
    proof (cases "b_id b \<in> S")
      case True
      from 3(1) [OF a HBookmark True r] T True a HBookmark show ?thesis
        by simp
    next
      case False
      from 3(2) [OF a HBookmark False r] obtain h' out where
        s: "removeBookmarksByIdsOnStore (Suc k) h as S = Some (h', out)" and p: "prefix h h'"
        and t: "readTree (Suc k) h' out = Some (removeBookmarksByIds rest S)"
        by blast
      from p obtain zs where "h' = h @ zs"
        by (auto simp: prefix_def)
      with a HBookmark have "h' ! a = HBookmark b" "\<not> length h' \<le> a"
        by (simp_all add: nth_append)
      with s p t T False a HBookmark show ?thesis
        by simp
    qed
  next
    case (HFolder f cs)
    with 3(5) a obtain kids rest where k: "readTree k h cs = Some kids"
      and r: "readTree (Suc k) h as = Some rest" and T: "T = Folder f kids # rest"
      by (auto split: option.splits)
    from 3(3) [OF a HFolder k] obtain h1 filtered where
      s1: "removeBookmarksByIdsOnStore k h cs S = Some (h1, filtered)" and p1: "prefix h h1"
      and t1: "readTree k h1 filtered = Some (removeBookmarksByIds kids S)"
      by blast
    let ?h1 = "h1 @ [HFolder f filtered]"
    from p1 have p1': "prefix h ?h1"
      by (rule prefix_prefix)
    with r have "readTree (Suc k) ?h1 as = Some rest"
      by (rule readTree_prefix)
    from 3(4) [OF a HFolder s1 refl this] obtain h2 acc where
      s2: "removeBookmarksByIdsOnStore (Suc k) ?h1 as S = Some (h2, acc)" and p2: "prefix ?h1 h2"
      and t2: "readTree (Suc k) h2 acc = Some (removeBookmarksByIds rest S)"
      by blast
    from p2 obtain zs where h2: "h2 = ?h1 @ zs"
      by (auto simp: prefix_def)
    then have nth: "h2 ! length h1 = HFolder f filtered" and len: "\<not> length h2 \<le> length h1"
      by (simp_all add: nth_append)
    from p2 have "prefix h1 h2"
      by (rule append_prefixD)
    with t1 have t1': "readTree k h2 filtered = Some (removeBookmarksByIds kids S)"
      by (rule readTree_prefix)
    from p1' p2 have "prefix h h2"
      by (rule prefix_order.trans)
    with s1 s2 t1' t2 nth len T a HFolder show ?thesis
      by simp
  qed
qed

lemma removeBookmarksByIdsOnStore_keeps_input:
  assumes "readTree k h as = Some T"
  shows "\<exists>h' out. removeBookmarksByIdsOnStore k h as S = Some (h', out)
           \<and> readTree k h' as = Some T
           \<and> readTree k h' out = Some (removeBookmarksByIds T S)"
proof -
  from removeBookmarksByIdsOnStore_refines [OF assms, of S] obtain h' out where
    s: "removeBookmarksByIdsOnStore k h as S = Some (h', out)" and p: "prefix h h'"
    and t: "readTree k h' out = Some (removeBookmarksByIds T S)"
    by blast
  from assms p have "readTree k h' as = Some T"
    by (rule readTree_prefix)
  with s t show ?thesis by blast
qed

text \<open>
  Claim C1. The claim is that no tree algorithm changes its input. On the store
  \<open>exStore\<close>, whose address 0 is a folder holding an empty folder and a bookmark,
  \<open>removeFoldersByIds\<close> with the id of the empty folder returns the folder at address 0
  itself, and the tree read from the input address afterwards has lost the empty folder:
  the input was changed in place.
\<close>

theorem removeFoldersByIds_changes_its_input:
  "readTree 3 exStore [0]
     = Some [Folder (mkFolder ''f1'' ''Work'')
               [Folder (mkFolder ''f2'' ''Old'') [],
                Bookmark (mkBookmark ''b1'' ''One'' ''https://one.example'' None)]]
   \<and> removeFoldersByIds 3 exStore [0] {''f2''} = Some (exStoreAfter, [0], 1)
   \<and> readTree 3 exStoreAfter [0]
     = Some [Folder (mkFolder ''f1'' ''Work'')
               [Bookmark (mkBookmark ''b1'' ''One'' ''https://one.example'' None)]]"
  by code_simp

section \<open>The quota flag and the oracle-dependent actions\<close>

text \<open>The guard of \<open>handleAutoCategorize\<close>: with the flag set it does nothing.\<close>

lemma handleAutoCategorize_gated:
  "isAIQuotaExceeded s \<Longrightarrow> handleAutoCategorize s = []"
  by (simp add: handleAutoCategorize_def split: option.splits)

text \<open>
  Claim C2. The claim is that no oracle-dependent action runs while the quota flag is set.
  On \<open>exState\<close>, whose flag is set, \<open>handleAutoCategorize\<close> does nothing, but
  \<open>runBookmarkHealthAudit\<close> dispatches the loading state and calls \<open>runAudit\<close> on all
  bookmarks, and \<open>generateFixItAllProposal\<close> goes on to call \<open>categorizeBookmarks\<close>.
\<close>

theorem health_audit_runs_with_quota_flag_set:
  "isAIQuotaExceeded exState
   \<and> handleAutoCategorize exState = []
   \<and> runBookmarkHealthAudit exState
       = [Dispatch (SET_LOADING (Some True) (Some ''Preparing Health Audit...'')),
          RunAudit [mkBookmark ''b1'' ''One'' ''https://one.example'' None,
                    mkBookmark ''b2'' ''Two'' ''https://two.example'' None,
                    mkBookmark ''b3'' ''Three'' ''https://three.example'' None]]
   \<and> last (generateFixItAllProposal (\<lambda>url. True) exState)
       = CategorizeBookmarks [mkBookmark ''b1'' ''One'' ''https://one.example'' None,
                    mkBookmark ''b2'' ''Two'' ''https://two.example'' None,
                    mkBookmark ''b3'' ''Three'' ''https://three.example'' None]"
  by code_simp

section \<open>The recommendation of the duplicate resolver\<close>

text \<open>The part of the policy for an unreachable url: every item of the group is
  selected.\<close>

lemma scanGroup_dead_selects_all:
  "\<not> alive (ds_url g) \<Longrightarrow>
     scanGroup alive (Some sel) g = Some (sel \<union> set (map (\<lambda>it. b_id (item_bookmark it)) (ds_items g)))"
  by (simp add: scanGroup_def)

text \<open>
  Claim C5. The claim is that the candidate with the fewest ancestor folders is kept, a
  bookmark at the root counting 0. In \<open>exDupTree\<close> the url is reachable, the older copy is
  at the root (its path is the empty string) and the newer one in the folder Bar; both
  paths split into one piece, the newer copy wins the tie, and the copy at the root is the
  one selected for removal.
\<close>

theorem smart_scan_drops_root_level_copy:
  "findAndSetDuplicates exDupTree
     = [\<lparr>ds_url = ''https://a.example'',
         ds_items =
           [\<lparr>item_bookmark = mkBookmark ''a'' ''Site'' ''https://a.example'' (Some ''100''),
              item_path = ''''\<rparr>,
            \<lparr>item_bookmark = mkBookmark ''b'' ''Site'' ''https://a.example'' (Some ''200''),
              item_path = ''Bar''\<rparr>]\<rparr>]
   \<and> performSmartScan (findAndSetDuplicates exDupTree) (\<lambda>url. True) {} = Some {''a''}"
  by code_simp

section \<open>Script urls in the parser\<close>

text \<open>A bookmark entry whose href is missing, empty or starts, after trimming, with
  \<open>javascript:\<close> in lower case leaves the parser state as it was.\<close>

lemma bookmark_entry_prefix_only:
  assumes "startsWith u ''<DT><A''"
  shows "\<not> startsWith u ''<DL>'' \<and> \<not> startsWith u ''</DL>'' \<and> \<not> startsWith u ''<DT><H3''"
proof -
  from assms have "take (length ''<DT><A'') u = ''<DT><A''"
    by (simp only: startsWith_def)
  then have "u = ''<DT><A'' @ drop (length ''<DT><A'') u"
    by (metis append_take_drop_id)
  then obtain r where "u = ''<DT><A'' @ r" ..
  then show ?thesis
    by (simp add: startsWith_def)
qed

lemma parseLine_drops_empty_or_script_href:
  assumes "startsWith (toUpperCase (trim line)) ''<DT><A''"
    and "url = (case attrMatch ''HREF'' (trim line) of Some u \<Rightarrow> u | None \<Rightarrow> [])"
    and "url = [] \<or> startsWith (trim url) ''javascript:''"
  shows "parseLine e st (i, line) = st"
  using assms bookmark_entry_prefix_only [OF assms(1)]
  by (cases st) (simp add: parseLine_def Let_def)

text \<open>
  Claim C8. The claim is that an entry whose href is a javascript url, in any letter case,
  creates no bookmark. The entry with \<open>JavaScript:alert(1)\<close> becomes a bookmark and is
  counted; the same entry in lower case is dropped.
\<close>

theorem parser_keeps_capitalised_javascript_url:
  \<open>map b_url (flattenBookmarks (fst (parseBookmarks exEnv ''<DT><A HREF="JavaScript:alert(1)">x</A>'')))
     = [''JavaScript:alert(1)'']
   \<and> bookmarkCount (snd (parseBookmarks exEnv ''<DT><A HREF="JavaScript:alert(1)">x</A>'')) = 1
   \<and> flattenBookmarks (fst (parseBookmarks exEnv ''<DT><A HREF="javascript:alert(1)">x</A>'')) = []
   \<and> bookmarkCount (snd (parseBookmarks exEnv ''<DT><A HREF="javascript:alert(1)">x</A>'')) = 0\<close>
  by code_simp

section \<open>Age bands\<close>

lemma pushToGroup_map:
  "pushToGroup lab i (map (\<lambda>l. (l, f l)) ls) = map (\<lambda>l. (l, if l = lab then f l @ [i] else f l)) ls"
  by (simp add: pushToGroup_def)

lemma ageGroups_fold:
  "foldl (\<lambda>ageGroups bookmark.
            case addDateTime bookmark of
              None \<Rightarrow> ageGroups
            | Some t \<Rightarrow> pushToGroup (ageLabel (now - t)) (b_id bookmark) ageGroups)
     (map (\<lambda>l. (l, f l)) ls) bs
   = map (\<lambda>l. (l, f l @ map b_id (filter (\<lambda>b. labelOf now b = Some l) bs))) ls"
proof (induction bs arbitrary: f)
  case Nil
  show ?case by simp
next
  case (Cons b bs)
  show ?case
  proof (cases "addDateTime b")
    case None
    then show ?thesis
      using Cons [of f] by (simp add: labelOf_def)
  next
    case (Some t)
    then show ?thesis
      using Cons [of "\<lambda>l. if l = ageLabel (now - t) then f l @ [b_id b] else f l"]
      by (simp add: labelOf_def pushToGroup_map cong: map_cong)
  qed
qed

lemma emptyAgeGroups_map: "emptyAgeGroups = map (\<lambda>l. (l, [])) ageLabels"
  by (simp add: emptyAgeGroups_def ageLabels_def)

lemma analyzeBookmarkAges_eq:
  "analyzeBookmarkAges now bs
    = filter (\<lambda>g. snd g \<noteq> [])
        (map (\<lambda>l. (l, map b_id (filter (\<lambda>b. labelOf now b = Some l) bs))) ageLabels)"
  unfolding analyzeBookmarkAges_def emptyAgeGroups_map
  by (simp add: ageGroups_fold)

lemma ageLabel_in_labels: "ageLabel a \<in> set ageLabels"
  by (simp add: ageLabel_def ageLabels_def)

lemma ageLabel_days:
  "ageLabel age = bandByDays age"
  by (simp add: ageLabel_def bandByDays_def days_def
      fiveYears_def twoYears_def oneYear_def sixMonths_def oneMonth_def)

lemma in_ages_iff:
  "g \<in> set (analyzeBookmarkAges now bs) \<longleftrightarrow>
     (fst g \<in> set ageLabels \<and> snd g = map b_id (filter (\<lambda>b. labelOf now b = Some (fst g)) bs) \<and> snd g \<noteq> [])"
proof (cases g)
  case (Pair l ids)
  show ?thesis
    unfolding analyzeBookmarkAges_eq Pair by (simp add: image_iff)
qed

text \<open>
  Claim C6, as the source has it. The claim gives the lower bounds of the bands as 1825,
  730, 365, 182.5 and 30 days. The source derives them from a month of 30 days: a bookmark
  362 days old is in the band of 1 to 2 years, which the bound of 365 days would exclude.
\<close>

theorem age_362_days_counterexample:
  "addDateTime (mkBookmark ''old'' ''Old'' ''https://old.example'' (Some ''1000000000'')) = Some 1000000000000
   \<and> exNow - 1000000000000 = 362 * (24 * 60 * 60 * 1000)
   \<and> analyzeBookmarkAges exNow [mkBookmark ''old'' ''Old'' ''https://old.example'' (Some ''1000000000'')]
       = [(''1-2 years old'', [''old''])]"
  by code_simp

text \<open>
  Claim C6, amended. A bookmark of the list with a valid date is listed in the band of the
  output that is the first one, in the order Over 5 years, 2-5 years, 1-2 years, 6-12
  months, 1-6 months, whose lower bound of 1800, 720, 360, 180 or 30 days its age exceeds,
  and Less than 1 month when its age is at most 30 days. Every band of the output lists
  exactly the bookmarks of that band, and none is empty; no label occurs twice; when the
  ids of the list are distinct, the id of the bookmark is in exactly one band.
\<close>

theorem analyzeBookmarkAges_bands:
  assumes b: "b \<in> set bs" and t: "addDateTime b = Some t"
  shows "(\<exists>g \<in> set (analyzeBookmarkAges now bs).
            fst g = bandByDays (now - t) \<and> b_id b \<in> set (snd g))
       \<and> (\<forall>g \<in> set (analyzeBookmarkAges now bs).
            snd g = map b_id (filter (\<lambda>x. \<exists>u. addDateTime x = Some u
                                          \<and> bandByDays (now - u) = fst g) bs)
            \<and> snd g \<noteq> [])
       \<and> distinct (map fst (analyzeBookmarkAges now bs))
       \<and> (distinct (map b_id bs) \<longrightarrow>
            (\<exists>!g. g \<in> set (analyzeBookmarkAges now bs) \<and> b_id b \<in> set (snd g)))"
proof -
  let ?L = "ageLabel (now - t)"
  let ?ids = "\<lambda>l. map b_id (filter (\<lambda>b. labelOf now b = Some l) bs)"
  have lab: "labelOf now b = Some ?L"
    using t by (simp add: labelOf_def)
  have mem: "b_id b \<in> set (?ids ?L)"
    using b lab by auto
  then have g0: "(?L, ?ids ?L) \<in> set (analyzeBookmarkAges now bs)"
    by (simp add: in_ages_iff ageLabel_in_labels filter_empty_conv) (use b lab in blast)
  have placed: "\<exists>g \<in> set (analyzeBookmarkAges now bs).
      fst g = bandByDays (now - t) \<and> b_id b \<in> set (snd g)"
  proof
    show "fst (?L, ?ids ?L) = bandByDays (now - t) \<and> b_id b \<in> set (snd (?L, ?ids ?L))"
      using mem by (simp add: ageLabel_days)
  qed (rule g0)
  have same: "(\<exists>u. addDateTime x = Some u \<and> bandByDays (now - u) = l) = (labelOf now x = Some l)" for x l
    by (cases "addDateTime x") (simp_all add: labelOf_def ageLabel_days)
  have exact: "\<forall>g \<in> set (analyzeBookmarkAges now bs).
      snd g = map b_id (filter (\<lambda>x. \<exists>u. addDateTime x = Some u
                                    \<and> bandByDays (now - u) = fst g) bs)
      \<and> snd g \<noteq> []"
    unfolding same using in_ages_iff [of _ now bs] by blast
  have "map fst (map (\<lambda>l. (l, ?ids l)) ageLabels) = ageLabels"
    by (simp add: comp_def)
  moreover have "distinct ageLabels"
    by (simp add: ageLabels_def)
  ultimately have labels: "distinct (map fst (analyzeBookmarkAges now bs))"
    unfolding analyzeBookmarkAges_eq by (simp add: distinct_map_filter)
  have one: "\<exists>!g. g \<in> set (analyzeBookmarkAges now bs) \<and> b_id b \<in> set (snd g)"
    if d: "distinct (map b_id bs)"
  proof (rule ex1I)
    from mem have "b_id b \<in> set (snd (?L, ?ids ?L))"
      by (simp only: snd_conv)
    with g0 show "(?L, ?ids ?L) \<in> set (analyzeBookmarkAges now bs) \<and> b_id b \<in> set (snd (?L, ?ids ?L))"
      by (rule conjI)
  next
    fix g
    assume g: "g \<in> set (analyzeBookmarkAges now bs) \<and> b_id b \<in> set (snd g)"
    then have s: "snd g = ?ids (fst g)"
      by (simp add: in_ages_iff)
    with g obtain b' where b': "b' \<in> set bs" "labelOf now b' = Some (fst g)" "b_id b' = b_id b"
      by auto
    from d have "inj_on b_id (set bs)"
      by (simp add: distinct_map)
    with b b' have "b' = b"
      by (auto dest: inj_onD)
    with b' lab have "fst g = ?L" by simp
    with s show "g = (?L, ?ids ?L)"
      by (simp add: prod_eq_iff)
  qed
  from placed exact labels one show ?thesis
    by blast
qed

theorem analyzeBookmarkAges_bands_witness:
  "distinct (map b_id exAged)
   \<and> mkBookmark ''old'' ''Old'' ''https://old.example'' (Some ''1000000000'') \<in> set exAged
   \<and> addDateTime (mkBookmark ''old'' ''Old'' ''https://old.example'' (Some ''1000000000'')) = Some 1000000000000
   \<and> bandByDays (exNow - 1000000000000) = ''1-2 years old''
   \<and> (\<exists>!g. g \<in> set (analyzeBookmarkAges exNow exAged) \<and> ''old'' \<in> set (snd g))
   \<and> analyzeBookmarkAges exNow exAged = [(''1-2 years old'', [''old'']), (''Less than 1 month old'', [''new''])]"
proof -
  have d: "distinct (map b_id exAged)"
    by code_simp
  have m: "mkBookmark ''old'' ''Old'' ''https://old.example'' (Some ''1000000000'') \<in> set exAged"
    by (simp add: exAged_def)
  have t: "addDateTime (mkBookmark ''old'' ''Old'' ''https://old.example'' (Some ''1000000000'')) = Some 1000000000000"
    by code_simp
  have l: "bandByDays (exNow - 1000000000000) = ''1-2 years old''"
    by code_simp
  have v: "analyzeBookmarkAges exNow exAged = [(''1-2 years old'', [''old'']), (''Less than 1 month old'', [''new''])]"
    by code_simp
  from analyzeBookmarkAges_bands [OF m t, of exNow] d have
    "\<exists>!g. g \<in> set (analyzeBookmarkAges exNow exAged) \<and> ''old'' \<in> set (snd g)"
    by (simp add: mkBookmark_def)
  with d m t l v show ?thesis by blast
qed

section \<open>The timestamp of an entry without ADD_DATE\<close>

text \<open>Every node of a parsed tree has an \<open>addDate\<close>: the parser never leaves the field
  out.\<close>

lemma allHaveAddDate_append:
  "allHaveAddDate (xs @ ys) = (allHaveAddDate xs \<and> allHaveAddDate ys)"
  by (induction xs rule: allHaveAddDate.induct) auto

lemma stackHasAddDates_pushChild:
  "stackHasAddDates stack \<Longrightarrow> allHaveAddDate [n] \<Longrightarrow> stackHasAddDates (pushChild n stack)"
  by (cases stack rule: stackHasAddDates.cases) (auto simp: pushChild_def allHaveAddDate_append)

lemma stackHasAddDates_closeList:
  "stackHasAddDates stack \<Longrightarrow> stackHasAddDates (closeList stack)"
proof (cases stack rule: stackHasAddDates.cases)
  case (3 g gcs fr rest)
  obtain f cs where fr: "fr = (f, cs)" by (cases fr)
  assume "stackHasAddDates stack"
  with 3 fr show ?thesis
    by (cases rest) (auto simp: closeList_def allHaveAddDate_append)
qed (auto simp: closeList_def)

lemma stackHasAddDates_openList:
  assumes "stackHasAddDates stack"
  shows "stackHasAddDates (openList stack)"
proof (cases stack)
  case Nil
  then show ?thesis by (simp add: openList_def)
next
  case (Cons fr rest)
  obtain f cs where fr: "fr = (f, cs)" by (cases fr)
  show ?thesis
  proof (cases "cs = []")
    case True
    with assms Cons fr show ?thesis by (simp add: openList_def)
  next
    case False
    then have split: "cs = butlast cs @ [last cs]" by simp
    from assms Cons fr have "allHaveAddDate cs"
      by (cases rest) auto
    with split have parts: "allHaveAddDate (butlast cs)" "allHaveAddDate [last cs]"
      by (metis allHaveAddDate_append)+
    show ?thesis
    proof (cases "last cs")
      case (Bookmark b)
      with assms Cons fr False show ?thesis by (simp add: openList_def)
    next
      case (Folder g gcs)
      with parts assms Cons fr False show ?thesis
        by (cases rest) (auto simp: openList_def)
    qed
  qed
qed

lemma stackHasAddDates_parseLine:
  assumes "stackHasAddDates (fst st)"
  shows "stackHasAddDates (fst (parseLine e st il))"
proof -
  obtain stack sts where st: "st = (stack, sts)" by (cases st)
  obtain i line where il: "il = (i, line)" by (cases il)
  have f: "allHaveAddDate [newFolder e i l]" for l
    by (simp add: newFolder_def)
  have b: "allHaveAddDate [newBookmark e i l u]" for l u
    by (simp add: newBookmark_def)
  from assms st have s: "stackHasAddDates stack" by simp
  show ?thesis
    unfolding st il parseLine_def
    by (simp add: Let_def s f b stackHasAddDates_openList stackHasAddDates_closeList
        stackHasAddDates_pushChild)
qed

lemma stackHasAddDates_foldl:
  "stackHasAddDates (fst st) \<Longrightarrow> stackHasAddDates (fst (foldl (parseLine e) st ils))"
  by (induction ils arbitrary: st) (simp_all add: stackHasAddDates_parseLine)

lemma allHaveAddDate_closeAll:
  "stackHasAddDates stack \<Longrightarrow> allHaveAddDate (closeAll stack)"
proof (induction stack rule: closeAll.induct)
  case (3 g gcs f cs rest)
  from 3(2) have "stackHasAddDates ((f, cs @ [Folder g gcs]) # rest)"
    by (cases rest) (auto simp: allHaveAddDate_append)
  then show ?case
    using 3(1) by simp
qed simp_all

lemma allHaveAddDate_addFolderStats:
  "allHaveAddDate ns \<Longrightarrow> allHaveAddDate (addFolderStats ns)"
  by (induction ns rule: addFolderStats.induct) auto

lemma parsed_nodes_have_addDate:
  "allHaveAddDate (fst (parseBookmarks e html))"
proof -
  let ?ls = "splitLines html"
  let ?st = "foldl (parseLine e) ([rootFrame], \<lparr>bookmarkCount = 0, folderCount = 0\<rparr>) (zip [0 ..< length ?ls] ?ls)"
  have "stackHasAddDates (fst ([rootFrame], \<lparr>bookmarkCount = 0, folderCount = 0\<rparr>))"
    by (simp add: rootFrame_def)
  then have "stackHasAddDates (fst ?st)"
    by (rule stackHasAddDates_foldl)
  then have "allHaveAddDate (addFolderStats (closeAll (fst ?st)))"
    by (intro allHaveAddDate_addFolderStats allHaveAddDate_closeAll)
  then show ?thesis
    by (simp add: parseBookmarks_def Let_def split_beta)
qed

text \<open>
  Claim C7, as the source has it. The claim is that a node parsed from an entry without
  \<open>ADD_DATE\<close> has no timestamp. The entry below has no \<open>ADD_DATE\<close>, the clock stands at
  1700000000123 milliseconds, and the bookmark parsed from it has the timestamp
  1700000000.
\<close>

theorem entry_without_ADD_DATE_counterexample:
  \<open>attrMatch ''ADD_DATE'' (trim ''<DT><A HREF="http://a.example">A</A>'') = None
   \<and> map b_addDate (flattenBookmarks (fst (parseBookmarks exEnv ''<DT><A HREF="http://a.example">A</A>'')))
       = [Some ''1700000000'']\<close>
  by code_simp

text \<open>
  Claim C7, amended. When a line without an \<open>ADD_DATE\<close> attribute makes the parser create
  a node (one of its two counters changes), the node is appended to the children of the
  folder on top of the stack and its timestamp is present: it is the time of parsing, in
  whole seconds, as a decimal string.
\<close>

theorem entry_without_ADD_DATE_gets_parse_time:
  assumes "attrMatch ''ADD_DATE'' (trim line) = None"
    and "parseLine e ((f, cs) # rest, sts) (i, line) = (stack', sts')"
    and "bookmarkCount sts' + folderCount sts' \<noteq> bookmarkCount sts + folderCount sts"
  shows "\<exists>n. stack' = (f, cs @ [n]) # rest
           \<and> nodeAddDate n = Some (intToString (clock e i div 1000))"
proof -
  let ?t = "trim line"
  let ?u = "toUpperCase ?t"
  let ?url = "case attrMatch ''HREF'' ?t of Some u \<Rightarrow> u | None \<Rightarrow> []"
  have date: "addDateOf e i ?t = intToString (clock e i div 1000)"
    using assms(1) by (simp add: addDateOf_def)
  consider (folder) "\<not> startsWith ?u ''<DL>''" "\<not> startsWith ?u ''</DL>''" "startsWith ?u ''<DT><H3''"
    | (bookmark) "\<not> startsWith ?u ''<DL>''" "\<not> startsWith ?u ''</DL>''" "\<not> startsWith ?u ''<DT><H3''"
        "startsWith ?u ''<DT><A''" "\<not> (?url = [] \<or> startsWith (trim ?url) ''javascript:'')"
    | (other) "sts' = sts"
    using assms(2) by (auto simp: parseLine_def Let_def split: if_splits)
  then show ?thesis
  proof cases
    case folder
    with assms(2) have "stack' = (f, cs @ [newFolder e i ?t]) # rest"
      by (auto simp: parseLine_def Let_def pushChild_def)
    moreover have "nodeAddDate (newFolder e i ?t) = Some (intToString (clock e i div 1000))"
      by (simp add: newFolder_def date)
    ultimately show ?thesis by blast
  next
    case bookmark
    with assms(2) have "stack' = (f, cs @ [newBookmark e i ?t ?url]) # rest"
      by (auto simp: parseLine_def Let_def pushChild_def)
    moreover have "nodeAddDate (newBookmark e i ?t ?url) = Some (intToString (clock e i div 1000))"
      by (simp add: newBookmark_def date)
    ultimately show ?thesis by blast
  next
    case other
    with assms(3) show ?thesis by simp
  qed
qed

theorem entry_without_ADD_DATE_gets_parse_time_witness:
  "attrMatch ''ADD_DATE'' (trim exLine) = None
   \<and> bookmarkCount (snd (parseLine exEnv ([(rootInfo, [])], noStats) (0, exLine))) = 1
   \<and> folderCount (snd (parseLine exEnv ([(rootInfo, [])], noStats) (0, exLine))) = 0
   \<and> (\<exists>n. fst (parseLine exEnv ([(rootInfo, [])], noStats) (0, exLine)) = [(rootInfo, [n])]
          \<and> nodeAddDate n = Some ''1700000000'')"
proof -
  let ?r = "parseLine exEnv ([(rootInfo, [])], noStats) (0, exLine)"
  have a: "attrMatch ''ADD_DATE'' (trim exLine) = None"
    by code_simp
  have p: "?r = (fst ?r, snd ?r)"
    by simp
  have b: "bookmarkCount (snd ?r) = 1"
    by code_simp
  have f: "folderCount (snd ?r) = 0"
    by code_simp
  from b f have c: "bookmarkCount (snd ?r) + folderCount (snd ?r) \<noteq> bookmarkCount noStats + folderCount noStats"
    by (simp add: noStats_def)
  have now: "intToString (clock exEnv 0 div 1000) = ''1700000000''"
    by code_simp
  from entry_without_ADD_DATE_gets_parse_time [OF a p c]
  have "\<exists>n. fst ?r = [(rootInfo, [n])] \<and> nodeAddDate n = Some ''1700000000''"
    by (simp add: now)
  with a b f show ?thesis by blast
qed

section \<open>Keyword analysis\<close>

text \<open>The sort of the keyword counts is the stable insertion sort by descending count, the
  two nested loops count the tokens of \<open>keywordStream\<close> in its order, and the keys of the
  counts are the distinct tokens in the order in which they are met first.\<close>

lemma insertSorted_count_insort:
  "insertSorted (\<lambda>a b. int (snd b) - int (snd a)) x ys = insort_key (\<lambda>e. - int (snd e)) x ys"
  by (induction ys) simp_all

lemma jsSort_count_sort_key:
  "jsSort (\<lambda>a b. int (snd b) - int (snd a)) xs = sort_key (\<lambda>e. - int (snd e)) xs"
  by (induction xs) (simp_all add: jsSort_def sort_key_def insertSorted_count_insort)

lemma countWords_filter:
  "countWords m ws = foldl (\<lambda>m w. bumpCount w m) m (filter isKeyword ws)"
  unfolding countWords_def by (induction ws arbitrary: m) simp_all

lemma keywordCounts_foldl:
  "foldl (\<lambda>m bm. countWords m (titleWords (b_title bm))) m bs
     = foldl (\<lambda>m w. bumpCount w m) m (concat (map (\<lambda>bm. filter isKeyword (titleWords (b_title bm))) bs))"
  by (induction bs arbitrary: m) (simp_all add: countWords_filter)

lemma keywordCounts_stream:
  "keywordCounts bs = foldl (\<lambda>m w. bumpCount w m) [] (keywordStream bs)"
  by (simp add: keywordCounts_def keywordStream_def keywordCounts_foldl)

lemma keys_bumpCount:
  "map fst (bumpCount w m) = (if w \<in> set (map fst m) then map fst m else map fst m @ [w])"
  by (induction m) (auto simp: image_iff, force)

lemma firstSeen_append_old:
  "k \<in> set ws \<Longrightarrow> firstSeen (ws @ [w]) k = firstSeen ws k"
  by (induction ws) (auto simp: firstSeen_def)

lemma firstSeen_append_new:
  "k \<notin> set ws \<Longrightarrow> firstSeen (ws @ [k]) k = length ws"
  by (induction ws) (auto simp: firstSeen_def)

lemma firstSeen_less:
  "k \<in> set ws \<Longrightarrow> firstSeen ws k < length ws"
  by (induction ws) (auto simp: firstSeen_def)

lemma keys_of_counts:
  "set (map fst (foldl (\<lambda>m w. bumpCount w m) [] ws)) = set ws
   \<and> sorted_wrt (\<lambda>a b. firstSeen ws a < firstSeen ws b) (map fst (foldl (\<lambda>m w. bumpCount w m) [] ws))"
proof (induction ws rule: rev_induct)
  case Nil
  show ?case by simp
next
  case (snoc w ws)
  let ?m = "foldl (\<lambda>m w. bumpCount w m) [] ws"
  from snoc have keys: "set (map fst ?m) = set ws"
    and ord: "sorted_wrt (\<lambda>a b. firstSeen ws a < firstSeen ws b) (map fst ?m)"
    by simp_all
  have ord': "sorted_wrt (\<lambda>a b. firstSeen (ws @ [w]) a < firstSeen (ws @ [w]) b) (map fst ?m)"
    using ord
  proof (rule sorted_wrt_mono_rel [rotated])
    fix a b
    assume "a \<in> set (map fst ?m)" "b \<in> set (map fst ?m)" "firstSeen ws a < firstSeen ws b"
    with keys show "firstSeen (ws @ [w]) a < firstSeen (ws @ [w]) b"
      by (simp add: firstSeen_append_old)
  qed
  show ?case
  proof (cases "w \<in> set ws")
    case True
    with keys ord' show ?thesis
      by (auto simp: keys_bumpCount)
  next
    case False
    have "firstSeen (ws @ [w]) a < firstSeen (ws @ [w]) w" if "a \<in> set ws" for a
      using that False by (simp add: firstSeen_append_old firstSeen_append_new firstSeen_less)
    with keys ord' False show ?thesis
      by (auto simp: keys_bumpCount sorted_wrt_append)
  qed
qed

lemma insort_key_lex:
  assumes "sorted_wrt (\<lambda>a b. f a < f b \<or> (f a = f b \<and> P a b)) ys"
    and "\<forall>y \<in> set ys. P x y"
  shows "sorted_wrt (\<lambda>a b. f a < f b \<or> (f a = f b \<and> P a b)) (insort_key f x ys)"
  using assms
proof (induction ys)
  case Nil
  show ?case by simp
next
  case (Cons y ys)
  show ?case
  proof (cases "f x \<le> f y")
    case True
    from Cons.prems(1) have "\<forall>z \<in> set ys. f y \<le> f z"
      by auto
    with True have "\<forall>z \<in> set (y # ys). f x \<le> f z"
      by auto
    with Cons.prems(2) have "\<forall>z \<in> set (y # ys). f x < f z \<or> (f x = f z \<and> P x z)"
      by (auto simp: le_less)
    with True Cons.prems(1) show ?thesis
      by simp
  next
    case False
    from Cons have "sorted_wrt (\<lambda>a b. f a < f b \<or> (f a = f b \<and> P a b)) (insort_key f x ys)"
      by simp
    with False Cons.prems(1) show ?thesis
      by (auto simp: set_insort_key)
  qed
qed

lemma sort_key_lex:
  "sorted_wrt P xs \<Longrightarrow>
     sorted_wrt (\<lambda>a b. f a < f b \<or> (f a = f b \<and> P a b)) (sort_key f xs)"
proof (induction xs)
  case Nil
  show ?case by simp
next
  case (Cons x xs)
  then have "sorted_wrt (\<lambda>a b. f a < f b \<or> (f a = f b \<and> P a b)) (sort_key f xs)"
    and "\<forall>y \<in> set (sort_key f xs). P x y"
    by simp_all
  then have "sorted_wrt (\<lambda>a b. f a < f b \<or> (f a = f b \<and> P a b)) (insort_key f x (sort_key f xs))"
    by (rule insort_key_lex)
  then show ?case
    by (simp add: sort_key_def)
qed

lemma map_of_bumpCount:
  "map_of (bumpCount w m) = (map_of m)(w \<mapsto> (case map_of m w of None \<Rightarrow> 1 | Some c \<Rightarrow> c + 1))"
  by (induction m) (auto simp: fun_eq_iff)

lemma map_of_counts:
  "map_of (foldl (\<lambda>m w. bumpCount w m) [] ws) k
     = (if k \<in> set ws then Some (count_list ws k) else None)"
proof (induction ws arbitrary: k rule: rev_induct)
  case Nil
  show ?case by simp
next
  case (snoc w ws)
  have "map_of (foldl (\<lambda>m w. bumpCount w m) [] ws) w
      = (if w \<in> set ws then Some (count_list ws w) else None)"
    by (rule snoc)
  with snoc [of k] show ?case
    by (simp add: map_of_bumpCount)
qed

lemma sorted_wrt_irrefl_distinct:
  "sorted_wrt P xs \<Longrightarrow> (\<And>x. \<not> P x x) \<Longrightarrow> distinct xs"
  by (induction xs) auto

lemma distinct_keys_of_counts:
  "distinct (map fst (foldl (\<lambda>m w. bumpCount w m) [] ws))"
  using keys_of_counts [of ws]
  by (intro sorted_wrt_irrefl_distinct [of "\<lambda>a b. firstSeen ws a < firstSeen ws b"]) simp_all

lemma keywordStream_isKeyword:
  "w \<in> set (keywordStream bs) \<Longrightarrow> isKeyword w"
  by (auto simp: keywordStream_def)

text \<open>
  Claim C9. For every bookmark list, no keyword of the output of \<open>analyzeTitleKeywords\<close>
  is a stop word, purely numeric or of length 2 or less, and its count is the number of
  times the token is met; the output is sorted by non-increasing count; of two entries
  with the same count the one met first comes first; and the output has at most 30
  entries.
\<close>

theorem analyzeTitleKeywords_spec:
  "(\<forall>e \<in> set (analyzeTitleKeywords bs).
       fst e \<notin> STOP_WORDS \<and> \<not> isNumeric (fst e) \<and> length (fst e) > 2
       \<and> snd e = count_list (keywordStream bs) (fst e))
   \<and> sorted_wrt (\<lambda>a b. snd a \<ge> snd b) (analyzeTitleKeywords bs)
   \<and> sorted_wrt (\<lambda>a b. snd a = snd b \<longrightarrow>
          firstSeen (keywordStream bs) (fst a) < firstSeen (keywordStream bs) (fst b))
        (analyzeTitleKeywords bs)
   \<and> length (analyzeTitleKeywords bs) \<le> 30"
proof -
  let ?ws = "keywordStream bs"
  let ?m = "foldl (\<lambda>m w. bumpCount w m) [] ?ws"
  let ?f = "\<lambda>e :: string \<times> nat. - int (snd e)"
  let ?P = "\<lambda>a b :: string \<times> nat. firstSeen ?ws (fst a) < firstSeen ?ws (fst b)"
  let ?R = "\<lambda>a b. ?f a < ?f b \<or> (?f a = ?f b \<and> ?P a b)"
  have out: "analyzeTitleKeywords bs = take 30 (sort_key ?f ?m)"
    by (simp add: analyzeTitleKeywords_def jsSort_count_sort_key keywordCounts_stream)
  have sub: "set (analyzeTitleKeywords bs) \<subseteq> set ?m"
    unfolding out using set_take_subset [of 30 "sort_key ?f ?m"] by simp
  have entry: "isKeyword (fst e) \<and> snd e = count_list ?ws (fst e)" if "e \<in> set ?m" for e
  proof -
    from that have "fst e \<in> set (map fst ?m)"
      by (simp add: image_iff) blast
    then have k: "fst e \<in> set ?ws"
      using keys_of_counts [of ?ws] by simp
    from that have "map_of ?m (fst e) = Some (snd e)"
      using distinct_keys_of_counts [of ?ws] by simp
    with k have "snd e = count_list ?ws (fst e)"
      by (simp add: map_of_counts)
    with k show ?thesis
      by (simp add: keywordStream_isKeyword)
  qed
  have words: "\<forall>e \<in> set (analyzeTitleKeywords bs).
       fst e \<notin> STOP_WORDS \<and> \<not> isNumeric (fst e) \<and> length (fst e) > 2
       \<and> snd e = count_list ?ws (fst e)"
  proof
    fix e
    assume "e \<in> set (analyzeTitleKeywords bs)"
    with sub have "e \<in> set ?m" by blast
    then have "isKeyword (fst e) \<and> snd e = count_list ?ws (fst e)"
      by (rule entry)
    then show "fst e \<notin> STOP_WORDS \<and> \<not> isNumeric (fst e) \<and> length (fst e) > 2
       \<and> snd e = count_list ?ws (fst e)"
      by (simp add: isKeyword_def)
  qed
  have "sorted_wrt (\<lambda>a b. firstSeen ?ws a < firstSeen ?ws b) (map fst ?m)"
    using keys_of_counts [of ?ws] by simp
  then have "sorted_wrt ?P ?m"
    by (simp add: sorted_wrt_map)
  then have "sorted_wrt ?R (sort_key ?f ?m)"
    by (rule sort_key_lex)
  then have lex: "sorted_wrt ?R (analyzeTitleKeywords bs)"
    unfolding out by (rule sorted_wrt_take)
  have by_count: "sorted_wrt (\<lambda>a b. snd a \<ge> snd b) (analyzeTitleKeywords bs)"
    using lex by (rule sorted_wrt_mono_rel [rotated]) auto
  have ties: "sorted_wrt (\<lambda>a b. snd a = snd b \<longrightarrow> ?P a b) (analyzeTitleKeywords bs)"
    using lex by (rule sorted_wrt_mono_rel [rotated]) auto
  have len: "length (analyzeTitleKeywords bs) \<le> 30"
    unfolding out by simp
  from words by_count ties len show ?thesis
    by (intro conjI)
qed

theorem analyzeTitleKeywords_spec_witness:
  "analyzeTitleKeywords exTitles = [(''rust'', 3), (''book'', 2), (''learn'', 1)]
   \<and> keywordStream exTitles = [''rust'', ''book'', ''rust'', ''learn'', ''rust'', ''book'']
   \<and> sorted_wrt (\<lambda>a b. snd a \<ge> snd b) (analyzeTitleKeywords exTitles)
   \<and> length (analyzeTitleKeywords exTitles) \<le> 30"
proof -
  have v: "analyzeTitleKeywords exTitles = [(''rust'', 3), (''book'', 2), (''learn'', 1)]"
    by code_simp
  have w: "keywordStream exTitles = [''rust'', ''book'', ''rust'', ''learn'', ''rust'', ''book'']"
    by code_simp
  from analyzeTitleKeywords_spec [of exTitles] v w show ?thesis
    by blast
qed

end
